theory Spec2Isabelle
  imports Main "HOL-Library.AList"
begin

section \<open>Strings: \<open>String.prototype.replace\<close> with a global literal pattern\<close>

text \<open>
  \<open>text.replace(/Yale/g, 'Fale')\<close>: the scan goes left to right; where the pattern matches
  at the current position the replacement is emitted and the scan continues after the
  match, otherwise the current character is emitted and the scan moves on by one. The
  three patterns of \<open>app.js\<close> are literals without metacharacters, and the replacements
  hold no \<open>$\<close> pattern.
\<close>

fun replaceAll :: "string \<Rightarrow> string \<Rightarrow> string \<Rightarrow> string" where
  "replaceAll p r [] = []"
| "replaceAll p r (c # cs) =
     (if p \<noteq> [] \<and> take (length p) (c # cs) = p
      then r @ replaceAll p r (drop (length p) (c # cs))
      else c # replaceAll p r cs)"

text \<open>Lines 80--83 (and 98--101): the three replacements, chained in the source's order.\<close>

definition substitute :: "string \<Rightarrow> string" where
  "substitute text =
     replaceAll ''yale'' ''fale'' (replaceAll ''YALE'' ''FALE'' (replaceAll ''Yale'' ''Fale'' text))"

text \<open>\<open>occurs q s\<close>: the string \<open>q\<close> is a substring of \<open>s\<close>.\<close>

fun occurs :: "string \<Rightarrow> string \<Rightarrow> bool" where
  "occurs q [] = (q = [])"
| "occurs q (c # cs) = (take (length q) (c # cs) = q \<or> occurs q cs)"

definition yaleFree :: "string \<Rightarrow> bool" where
  "yaleFree s = (\<not> occurs ''Yale'' s \<and> \<not> occurs ''YALE'' s \<and> \<not> occurs ''yale'' s)"

text \<open>\<open>String.prototype.startsWith\<close>.\<close>

definition startsWith :: "string \<Rightarrow> string \<Rightarrow> bool" where
  "startsWith s p = (take (length p) s = p)"

section \<open>The document tree\<close>

text \<open>
  The tree that the HTML library hands to \<open>app.js\<close>: text nodes, comments, directives
  (the doctype) and elements with a tag name, attributes and ordered children. A
  document is the list of the children of its root.
\<close>

datatype node =
    Text string
  | Comment string
  | Directive string
  | Element string "(string \<times> string) list" "node list"

type_synonym document = "node list"

text \<open>
  The \<open>type\<close> field of a node. The library tags an element named \<open>script\<close> or
  \<open>style\<close> with that name and every other element with \<open>tag\<close>.
\<close>

fun nodeType :: "node \<Rightarrow> string" where
  "nodeType (Text t) = ''text''"
| "nodeType (Comment t) = ''comment''"
| "nodeType (Directive t) = ''directive''"
| "nodeType (Element n as cs) =
     (if n = ''script'' then ''script'' else if n = ''style'' then ''style'' else ''tag'')"

fun nodeName :: "node \<Rightarrow> string option" where
  "nodeName (Element n as cs) = Some n"
| "nodeName _ = None"

fun isElement :: "node \<Rightarrow> bool" where
  "isElement (Element n as cs) = True"
| "isElement _ = False"

text \<open>\<open>$(el).attr(name)\<close>: the value of the attribute, \<open>None\<close> for \<open>undefined\<close>.\<close>

fun attr :: "node \<Rightarrow> string \<Rightarrow> string option" where
  "attr (Element n as cs) k = map_of as k"
| "attr _ k = None"

text \<open>\<open>$('name')\<close>: the elements with that tag name, in document order.\<close>

fun select :: "string \<Rightarrow> node \<Rightarrow> node list" where
  "select t (Element n as cs) =
     (if n = t then [Element n as cs] else []) @ concat (map (select t) cs)"
| "select t _ = []"

definition selectAll :: "string \<Rightarrow> document \<Rightarrow> node list" where
  "selectAll t doc = concat (map (select t) doc)"

text \<open>\<open>$('*')\<close>: every element of the document, in document order.\<close>

fun elements :: "node \<Rightarrow> node list" where
  "elements (Element n as cs) = Element n as cs # concat (map elements cs)"
| "elements _ = []"

definition allElements :: "document \<Rightarrow> node list" where
  "allElements doc = concat (map elements doc)"

text \<open>
  Modelled from the spec: the HTML library's \<open>prepend\<close> and \<open>append\<close> are not under
  \<open>src/\<close>. \<open>$('head').prepend(x)\<close> inserts the nodes \<open>x\<close> as the first children of every
  element named \<open>head\<close>, \<open>$('head').append(x)\<close> as the last ones. Given a string, they
  insert the nodes that the library parses from it.
\<close>

fun prependTo :: "string \<Rightarrow> node list \<Rightarrow> node \<Rightarrow> node" where
  "prependTo t new (Element n as cs) =
     Element n as ((if n = t then new else []) @ map (prependTo t new) cs)"
| "prependTo t new other = other"

fun appendTo :: "string \<Rightarrow> node list \<Rightarrow> node \<Rightarrow> node" where
  "appendTo t new (Element n as cs) =
     Element n as (map (appendTo t new) cs @ (if n = t then new else []))"
| "appendTo t new other = other"

text \<open>
  Modelled from the spec: the library's \<open>text()\<close> is not under \<open>src/\<close>. Read, it gives
  the combined text of the matched elements with their descendants; written, it makes a
  single text node the only child of every matched element.
\<close>

fun textContent :: "node \<Rightarrow> string" where
  "textContent (Text t) = t"
| "textContent (Element n as cs) = concat (map textContent cs)"
| "textContent _ = []"

definition getText :: "string \<Rightarrow> document \<Rightarrow> string" where
  "getText t doc = concat (map textContent (selectAll t doc))"

fun setText :: "string \<Rightarrow> string \<Rightarrow> node \<Rightarrow> node" where
  "setText t s (Element n as cs) =
     (if n = t then Element n as [Text s] else Element n as (map (setText t s) cs))"
| "setText t s other = other"

section \<open>The rewrite of \<open>app.js\<close>\<close>

subsection \<open>Lines 48--56: the base tag\<close>

text \<open>
  \<open>baseTag.length && baseTag.attr('href')\<close>: some \<open>base\<close> element exists and the first one
  has a non-empty \<open>href\<close>.
\<close>

definition hasBaseHref :: "document \<Rightarrow> bool" where
  "hasBaseHref doc =
     (case selectAll ''base'' doc of
        [] \<Rightarrow> False
      | b # _ \<Rightarrow> (case attr b ''href'' of None \<Rightarrow> False | Some v \<Rightarrow> v \<noteq> []))"

text \<open>
  The library parses a string that is given to \<open>prepend\<close>, \<open>append\<close> or \<open>replaceWith\<close>
  as a fragment of HTML and inserts the nodes it finds. The fragment parser is not under
  \<open>src/\<close>: it is a parameter \<open>P\<close>, from the markup to the nodes.
\<close>

type_synonym parser = "string \<Rightarrow> node list"

text \<open>Line 55: the markup \<open><base href="${url}">\<close>, with the URL put in as it is.\<close>

definition baseMarkup :: "string \<Rightarrow> string" where
  "baseMarkup url = ''<base href='' @ [CHR 0x22] @ url @ [CHR 0x22] @ ''>''"

text \<open>
  The variable \<open>baseUrl\<close> of lines 49 and 52: the source URL, or the \<open>href\<close> of the first
  \<open>base\<close> element. Nothing in \<open>app.js\<close> reads it afterwards.
\<close>

definition baseUrl :: "string \<Rightarrow> document \<Rightarrow> string" where
  "baseUrl url doc =
     (if hasBaseHref doc
      then (case attr (hd (selectAll ''base'' doc)) ''href'' of Some v \<Rightarrow> v | None \<Rightarrow> url)
      else url)"

definition ensureBase :: "parser \<Rightarrow> string \<Rightarrow> document \<Rightarrow> document" where
  "ensureBase P url doc =
     (if hasBaseHref doc then doc else map (prependTo ''head'' (P (baseMarkup url))) doc)"

subsection \<open>Lines 58--67: relative URLs\<close>

definition urlAttributes :: "string list" where
  "urlAttributes = [''src'', ''href'', ''action'', ''data-src'']"

definition exempt :: "string \<Rightarrow> bool" where
  "exempt v =
     (startsWith v ''http'' \<or> startsWith v ''//'' \<or> startsWith v ''#''
      \<or> startsWith v ''javascript:'' \<or> startsWith v ''data:'')"

text \<open>
  \<open>new URL(value, url).href\<close> belongs to the platform: it is a parameter \<open>R\<close>, which
  gives the resolved URL or the message of the \<open>TypeError\<close> it throws.
\<close>

type_synonym resolver = "string \<Rightarrow> string \<Rightarrow> string + string"

text \<open>The body of the inner \<open>each\<close> at one element, for one attribute name.\<close>

definition fixAttribs ::
  "resolver \<Rightarrow> string \<Rightarrow> string \<Rightarrow> (string \<times> string) list \<Rightarrow> string + (string \<times> string) list"
where
  "fixAttribs R url a as =
     (case map_of as a of
        None \<Rightarrow> Inr as
      | Some v \<Rightarrow>
          if v \<noteq> [] \<and> \<not> exempt v
          then (case R v url of Inl e \<Rightarrow> Inl e | Inr h \<Rightarrow> Inr (AList.update a h as))
          else Inr as)"

text \<open>
  \<open>$(`[${attr}]`).each(...)\<close>: the elements carrying the attribute, in document order;
  an exception leaves the loop.
\<close>

fun fixAttr :: "resolver \<Rightarrow> string \<Rightarrow> string \<Rightarrow> node \<Rightarrow> string + node"
and fixAttrList :: "resolver \<Rightarrow> string \<Rightarrow> string \<Rightarrow> node list \<Rightarrow> string + node list"
where
  "fixAttr R url a (Element n as cs) =
     (case fixAttribs R url a as of
        Inl e \<Rightarrow> Inl e
      | Inr as' \<Rightarrow>
          (case fixAttrList R url a cs of
             Inl e \<Rightarrow> Inl e
           | Inr cs' \<Rightarrow> Inr (Element n as' cs')))"
| "fixAttr R url a (Text t) = Inr (Text t)"
| "fixAttr R url a (Comment t) = Inr (Comment t)"
| "fixAttr R url a (Directive t) = Inr (Directive t)"
| "fixAttrList R url a [] = Inr []"
| "fixAttrList R url a (x # xs) =
     (case fixAttr R url a x of
        Inl e \<Rightarrow> Inl e
      | Inr x' \<Rightarrow>
          (case fixAttrList R url a xs of
             Inl e \<Rightarrow> Inl e
           | Inr xs' \<Rightarrow> Inr (x' # xs')))"

text \<open>\<open>urlAttributes.forEach\<close>: one pass for each attribute name, in the list's order.\<close>

fun fixUrls :: "resolver \<Rightarrow> string \<Rightarrow> string list \<Rightarrow> document \<Rightarrow> string + document" where
  "fixUrls R url [] doc = Inr doc"
| "fixUrls R url (a # rest) doc =
     (case fixAttrList R url a doc of
        Inl e \<Rightarrow> Inl e
      | Inr doc' \<Rightarrow> fixUrls R url rest doc')"

subsection \<open>Lines 70--95: the text substitution\<close>

text \<open>
  \<open>processNode(index, element)\<close>. An element named \<open>script\<close> or \<open>style\<close> is left at
  once. Otherwise the children are gone through (\<open>processContents\<close>): a text node whose
  text the substitution changes is replaced by the nodes that the library parses from
  the new text (\<open>replaceWith\<close> is given a string), a child of type \<open>tag\<close> is processed
  recursively, and a child of any other type is passed over.
\<close>

fun processNode :: "parser \<Rightarrow> node \<Rightarrow> node"
and processContents :: "parser \<Rightarrow> node list \<Rightarrow> node list"
where
  "processNode P (Element n as cs) =
     (if n = ''script'' \<or> n = ''style'' then Element n as cs
      else Element n as (processContents P cs))"
| "processNode P (Text t) = Text t"
| "processNode P (Comment t) = Comment t"
| "processNode P (Directive t) = Directive t"
| "processContents P [] = []"
| "processContents P (c # cs) =
     (if nodeType c = ''text'' then
        (let text = textContent c; newText = substitute text
         in if text \<noteq> newText then P newText else [c])
      else if nodeType c = ''tag'' then [processNode P c]
      else [c])
     @ processContents P cs"

text \<open>
  \<open>$('*').each(processNode)\<close>: \<open>processNode\<close> runs once at every element that the
  document has when \<open>$('*')\<close> is evaluated, in document order, on the tree as the earlier
  runs left it. The elements that a run parses from new text are not among them.

  A run at an element changes nothing outside that element, and through its recursion it
  is also a run at every element below that is reached through children of type
  \<open>tag\<close>. So the children of an element of the document are gone through \<open>v\<close> times, one
  time after the other: not at all when the element is named \<open>script\<close> or \<open>style\<close>, and
  otherwise once for every time its parent's children are gone through and once more for
  its own run, which comes last. \<open>eachProcessNode P m x\<close> is what becomes of the
  element \<open>x\<close> of the document when the children of its parent are gone through \<open>m\<close> times.
  A text node of the document is parsed anew the first time, if the substitution changes
  it; what was parsed from it is gone through the \<open>v - 1\<close> times that follow, as
  \<open>processNode\<close> goes through any children.
\<close>

fun eachProcessNode :: "parser \<Rightarrow> nat \<Rightarrow> node \<Rightarrow> node"
and eachContents :: "parser \<Rightarrow> nat \<Rightarrow> node list \<Rightarrow> node list"
where
  "eachProcessNode P m (Element n as cs) =
     Element n as (eachContents P (if n = ''script'' \<or> n = ''style'' then 0 else Suc m) cs)"
| "eachProcessNode P m (Text t) = Text t"
| "eachProcessNode P m (Comment t) = Comment t"
| "eachProcessNode P m (Directive t) = Directive t"
| "eachContents P v [] = []"
| "eachContents P v (c # cs) =
     (if nodeType c = ''text'' then
        (let text = textContent c; newText = substitute text
         in if v \<noteq> 0 \<and> text \<noteq> newText
            then (processContents P ^^ (v - 1)) (P newText)
            else [c])
      else [eachProcessNode P v c])
     @ eachContents P v cs"

subsection \<open>Lines 97--110: title and style block\<close>

text \<open>Lines 105--110: the markup of the style block, as the template literal holds it.\<close>

definition styleMarkup :: string where
  "styleMarkup =
     CHR 0x0A # ''      <style>''
     @ CHR 0x0A # ''        img, video, iframe { max-width: 100%; height: auto; }''
     @ CHR 0x0A # ''        body { font-family: -apple-system, BlinkMacSystemFont, ''
     @ CHR 0x27 # ''Segoe UI'' @ CHR 0x27 # '', Roboto, sans-serif; }''
     @ CHR 0x0A # ''      </style>''
     @ CHR 0x0A # ''    ''"

subsection \<open>Lines 42--117: the whole rewrite\<close>

text \<open>
  The rewrite of a parsed document: the new tree and the title, or the message of the
  exception that URL resolution threw.
\<close>

definition rewrite ::
  "parser \<Rightarrow> resolver \<Rightarrow> string \<Rightarrow> document \<Rightarrow> string + (document \<times> string)"
where
  "rewrite P R url doc =
     (case fixUrls R url urlAttributes (ensureBase P url doc) of
        Inl e \<Rightarrow> Inl e
      | Inr doc2 \<Rightarrow>
          (let doc3 = map (eachProcessNode P 0) doc2;
               title = substitute (getText ''title'' doc3);
               doc4 = map (setText ''title'' title) doc3;
               doc5 = map (appendTo ''head'' (P styleMarkup)) doc4
           in Inr (doc5, title)))"

section \<open>The handler of \<open>POST /fetch\<close>\<close>

subsection \<open>Lines 22--31: the request body and the URL\<close>

text \<open>
  The values a parsed JSON body holds. A number is kept as an integer: only whether it
  is zero matters to the handler.
\<close>

datatype json =
    JNull
  | JBool bool
  | JNumber int
  | JString string
  | JArray "json list"
  | JObject "(string \<times> json) list"

text \<open>
  The truth value of \<open>url\<close> in \<open>!url\<close>; \<open>None\<close> is \<open>undefined\<close>, the value of a field
  that the body does not have.
\<close>

fun truthy :: "json option \<Rightarrow> bool" where
  "truthy None = False"
| "truthy (Some JNull) = False"
| "truthy (Some (JBool b)) = b"
| "truthy (Some (JNumber n)) = (n \<noteq> 0)"
| "truthy (Some (JString s)) = (s \<noteq> [])"
| "truthy (Some (JArray xs)) = True"
| "truthy (Some (JObject kvs)) = True"

text \<open>
  The regular expression \<open>/^https?:\/\//i\<close>. With the flag \<open>i\<close> two characters match when
  their canonical forms agree; for the characters of this pattern that is the upper-case
  form of an ASCII letter.
\<close>

definition canonicalize :: "char \<Rightarrow> char" where
  "canonicalize c =
     (case map_of (zip ''abcdefghijklmnopqrstuvwxyz'' ''ABCDEFGHIJKLMNOPQRSTUVWXYZ'') c of
        Some u \<Rightarrow> u
      | None \<Rightarrow> c)"

text \<open>Matching a run of literal characters at the start of a string: the rest, if it matches.\<close>

fun matchChars :: "string \<Rightarrow> string \<Rightarrow> string option" where
  "matchChars [] s = Some s"
| "matchChars (p # ps) [] = None"
| "matchChars (p # ps) (c # cs) =
     (if canonicalize p = canonicalize c then matchChars ps cs else None)"

text \<open>\<open>http\<close>, then \<open>s\<close> if it is there (tried first, given up when the rest fails), then \<open>://\<close>.\<close>

definition matchScheme :: "string \<Rightarrow> bool" where
  "matchScheme s =
     (case matchChars ''http'' s of
        None \<Rightarrow> False
      | Some r \<Rightarrow>
          (case matchChars ''s'' r of
             Some r' \<Rightarrow>
               (if matchChars ''://'' r' \<noteq> None then True else matchChars ''://'' r \<noteq> None)
           | None \<Rightarrow> matchChars ''://'' r \<noteq> None))"

text \<open>Lines 29--31.\<close>

definition normalizeUrl :: "string \<Rightarrow> string" where
  "normalizeUrl url = (if \<not> matchScheme url then ''https://'' @ url else url)"

text \<open>
  The words of the specification: the string begins with \<open>http://\<close> or \<open>https://\<close>, read
  without regard to case.
\<close>

definition toLowerCase :: "char \<Rightarrow> char" where
  "toLowerCase c =
     (case map_of (zip ''ABCDEFGHIJKLMNOPQRSTUVWXYZ'' ''abcdefghijklmnopqrstuvwxyz'') c of
        Some l \<Rightarrow> l
      | None \<Rightarrow> c)"

definition beginsWithScheme :: "string \<Rightarrow> bool" where
  "beginsWithScheme s =
     (map toLowerCase (take 7 s) = ''http://'' \<or> map toLowerCase (take 8 s) = ''https://'')"

subsection \<open>Lines 20--124: the handler\<close>

text \<open>
  The response: \<open>Page content title originalUrl\<close> is the object with \<open>success: true\<close>,
  \<open>Failure error\<close> the object with the one field \<open>error\<close>.
\<close>

datatype payload =
    Page string string string
  | Failure string

record response =
  status :: nat
  payload :: payload

text \<open>
  What the handler calls and \<open>src/\<close> does not hold: \<open>axios.get\<close>, \<open>cheerio.load\<close>, the
  fragment parser behind \<open>prepend\<close>, \<open>append\<close> and \<open>replaceWith\<close>, \<open>new URL\<close> and
  \<open>$.html()\<close>. A call that can throw gives its result or the message of the error.
\<close>

record services =
  axiosGet :: "string \<Rightarrow> string + string"
  load :: "string \<Rightarrow> string + document"
  parseFragment :: parser
  newURL :: resolver
  html :: "document \<Rightarrow> string + string"

text \<open>Lines 118--123: the \<open>catch\<close> block.\<close>

definition failed :: "string \<Rightarrow> response" where
  "failed message = \<lparr>status = 500, payload = Failure (''Failed to fetch content: '' @ message)\<rparr>"

text \<open>
  The handler gives its response and the URLs it has requested from \<open>axios.get\<close>. A
  truthy \<open>url\<close> that is not a string has no method \<open>match\<close>: line 29 throws a
  \<open>TypeError\<close> with the message \<open>url.match is not a function\<close>. Every call between
  lines 21 and 117 stands in the \<open>try\<close> block: an error of any of them ends in the
  \<open>catch\<close> block. The body of the fetched page is taken to be text, as for an HTML
  response.
\<close>

definition fetchHandler :: "services \<Rightarrow> (string \<rightharpoonup> json) \<Rightarrow> response \<times> string list" where
  "fetchHandler sv body =
     (let url = body ''url'' in
      if \<not> truthy url then (\<lparr>status = 400, payload = Failure ''URL is required''\<rparr>, [])
      else
        (case url of
           Some (JString s) \<Rightarrow>
             (let url' = normalizeUrl s in
              case axiosGet sv url' of
                Inl message \<Rightarrow> (failed message, [url'])
              | Inr data \<Rightarrow>
                  (case load sv data of
                     Inl message \<Rightarrow> (failed message, [url'])
                   | Inr page \<Rightarrow>
                       (case rewrite (parseFragment sv) (newURL sv) url' page of
                          Inl message \<Rightarrow> (failed message, [url'])
                        | Inr (doc, title) \<Rightarrow>
                            (case html sv doc of
                               Inl message \<Rightarrow> (failed message, [url'])
                             | Inr content \<Rightarrow>
                                 (\<lparr>status = 200, payload = Page content title url'\<rparr>,
                                  [url'])))))
         | _ \<Rightarrow> (failed ''url.match is not a function'', [])))"

section \<open>Notions for the statements\<close>

text \<open>
  The nodes that the specification has the rewrite put in: a \<open>base\<close> element whose
  \<open>href\<close> is the source URL, and the style block, a \<open>style\<close> element between the two
  runs of white space of the template literal.
\<close>

definition baseElement :: "string \<Rightarrow> node" where
  "baseElement url = Element ''base'' [(''href'', url)] []"

definition styleBlock :: "node list" where
  "styleBlock =
     [Text (CHR 0x0A # ''      ''),
      Element ''style'' []
        [Text (CHR 0x0A # ''        img, video, iframe { max-width: 100%; height: auto; }''
           @ CHR 0x0A # ''        body { font-family: -apple-system, BlinkMacSystemFont, ''
           @ CHR 0x27 # ''Segoe UI'' @ CHR 0x27 # '', Roboto, sans-serif; }''
           @ CHR 0x0A # ''      '')],
      Text (CHR 0x0A # ''    '')]"

text \<open>
  \<open>stableText P x\<close>: every text node below \<open>x\<close> that \<open>processNode\<close> would replace
  comes back from the parser as it went in, one text node with the new text. That is
  so for text that holds no markup and no character reference.
  \<open>parsesPlainly P url doc\<close>: on this document and URL the parser gives what the
  specification describes: the style block for the style markup, the \<open>base\<close> element
  for the base markup where it is needed, and text for text.
\<close>

fun stableText :: "parser \<Rightarrow> node \<Rightarrow> bool" where
  "stableText P (Element n as cs) =
     list_all (\<lambda>c. if nodeType c = ''text''
                    then n = ''script'' \<or> n = ''style''
                      \<or> substitute (textContent c) = textContent c
                      \<or> P (substitute (textContent c)) = [Text (substitute (textContent c))]
                    else stableText P c) cs"
| "stableText P other = True"

definition parsesPlainly :: "parser \<Rightarrow> string \<Rightarrow> document \<Rightarrow> bool" where
  "parsesPlainly P url doc =
     (P styleMarkup = styleBlock
      \<and> (hasBaseHref doc \<or> P (baseMarkup url) = [baseElement url])
      \<and> list_all (stableText P) doc)"

text \<open>
  \<open>stableChild P v c\<close>: the condition of \<open>stableText\<close> for a child \<open>c\<close> of an element
  whose children are gone through \<open>v\<close> times.
\<close>

definition stableChild :: "parser \<Rightarrow> nat \<Rightarrow> node \<Rightarrow> bool" where
  "stableChild P v c =
     (if nodeType c = ''text''
      then v = 0 \<or> substitute (textContent c) = textContent c
        \<or> P (substitute (textContent c)) = [Text (substitute (textContent c))]
      else stableText P c)"




text \<open>
  \<open>injected front back\<close>: the tree in which every \<open>head\<close> element has the nodes \<open>front\<close>
  before its children and the nodes \<open>back\<close> after them.
\<close>

fun injected :: "node list \<Rightarrow> node list \<Rightarrow> node \<Rightarrow> node" where
  "injected front back (Element n as cs) =
     Element n as
       ((if n = ''head'' then front else []) @ map (injected front back) cs
        @ (if n = ''head'' then back else []))"
| "injected front back other = other"

text \<open>
  \<open>plainRewrite\<close>: the rewrite as it comes out where the parser gives what the
  specification describes, written with the nodes themselves: the \<open>base\<close> element is
  put in (\<open>plainBase\<close>), the URL pass runs, the substitution is one map over the tree
  (\<open>rewriteText\<close>), the title is set and the style block is appended.
\<close>

definition plainBase :: "string \<Rightarrow> document \<Rightarrow> document" where
  "plainBase url doc =
     (if hasBaseHref doc then doc else map (prependTo ''head'' [baseElement url]) doc)"


text \<open>
  \<open>swapped f a b\<close>: the character \<open>b\<close> is \<open>a\<close> or it is \<open>f\<close>. Each replacement changes
  only the first character of a match, to \<open>F\<close> or to \<open>f\<close>: the result is the input with
  some characters swapped for that one.
\<close>

definition swapped :: "char \<Rightarrow> char \<Rightarrow> char \<Rightarrow> bool" where
  "swapped f a b = (b = a \<or> b = f)"

text \<open>
  \<open>rewriteText\<close>: what \<open>$('*').each(processNode)\<close> amounts to where text is parsed as
  text, as proved below. A text node whose parent is an element other than \<open>script\<close>
  and \<open>style\<close> gets the substitution, whatever stands above that parent; every other
  node is kept.
\<close>

fun rewriteText :: "node \<Rightarrow> node" where
  "rewriteText (Element n as cs) =
     Element n as
       (map (\<lambda>c. if nodeType c = ''text'' \<and> n \<noteq> ''script'' \<and> n \<noteq> ''style''
                 then Text (substitute (textContent c))
                 else rewriteText c) cs)"
| "rewriteText other = other"

definition plainRewrite :: "resolver \<Rightarrow> string \<Rightarrow> document \<Rightarrow> string + (document \<times> string)" where
  "plainRewrite R url doc =
     (case fixUrls R url urlAttributes (plainBase url doc) of
        Inl e \<Rightarrow> Inl e
      | Inr doc2 \<Rightarrow>
          (let doc3 = map rewriteText doc2;
               title = substitute (getText ''title'' doc3);
               doc4 = map (setText ''title'' title) doc3;
               doc5 = map (appendTo ''head'' styleBlock) doc4
           in Inr (doc5, title)))"




text \<open>
  \<open>absolutized R url names e e'\<close>: the element \<open>e'\<close> is \<open>e\<close> after the URL pass for the
  attribute names \<open>names\<close>. It has the same tag name and the same attributes; the value of
  an attribute among \<open>names\<close> that is non-empty and starts with none of the five prefixes
  is its resolution against \<open>url\<close>, every other value is the old one.
\<close>

definition absolutized :: "resolver \<Rightarrow> string \<Rightarrow> string list \<Rightarrow> node \<Rightarrow> node \<Rightarrow> bool" where
  "absolutized R url names e e' =
     (nodeName e' = nodeName e
      \<and> (\<forall>k. case attr e k of
                None \<Rightarrow> attr e' k = None
              | Some v \<Rightarrow>
                  if k \<in> set names \<and> v \<noteq> [] \<and> \<not> exempt v
                  then map_option Inr (attr e' k) = Some (R v url)
                  else attr e' k = Some v))"

text \<open>
  \<open>outline hide\<close>: the tree without the content of its text nodes and the values of its
  attributes, and without the children of the elements named in \<open>hide\<close>. Tag names,
  attribute names, comments, directives and the order of the nodes are kept.
\<close>

fun outline :: "string list \<Rightarrow> node \<Rightarrow> node" where
  "outline hide (Text t) = Text []"
| "outline hide (Comment t) = Comment t"
| "outline hide (Directive t) = Directive t"
| "outline hide (Element n as cs) =
     Element n (map (\<lambda>(k, v). (k, [])) as) (if n \<in> set hide then [] else map (outline hide) cs)"

text \<open>
  \<open>related\<close>: the element \<open>e'\<close> is \<open>e\<close> after the URL pass, and so is its first child, if
  \<open>e\<close> has one. \<open>kept\<close>: the same tag name and attributes. \<open>plainTitles\<close>: no \<open>title\<close>
  element of the tree has an element as a child, as for the \<open>title\<close> of an HTML document,
  whose content is text.
\<close>

fun firstChild :: "node \<Rightarrow> node option" where
  "firstChild (Element n as (c # cs)) = Some c"
| "firstChild other = None"

definition related :: "resolver \<Rightarrow> string \<Rightarrow> string list \<Rightarrow> node \<Rightarrow> node \<Rightarrow> bool" where
  "related R url names e e' =
     (absolutized R url names e e'
      \<and> (case firstChild e of
            None \<Rightarrow> True
          | Some c \<Rightarrow>
              (case firstChild e' of None \<Rightarrow> False | Some c' \<Rightarrow> absolutized R url names c c')))"

fun plainTitles :: "node \<Rightarrow> bool" where
  "plainTitles (Element n as cs) =
     (if n = ''title'' then list_all (\<lambda>c. \<not> isElement c) cs else list_all plainTitles cs)"
| "plainTitles other = True"

definition kept :: "node \<Rightarrow> node \<Rightarrow> bool" where
  "kept x y = (nodeName y = nodeName x \<and> (\<forall>k. attr y k = attr x k))"

definition keptFirst :: "node \<Rightarrow> node \<Rightarrow> bool" where
  "keptFirst x y =
     (kept x y
      \<and> (case firstChild x of
            None \<Rightarrow> True
          | Some c \<Rightarrow> (case firstChild y of None \<Rightarrow> False | Some c' \<Rightarrow> kept c c')))"

section \<open>Example pages and services\<close>

text \<open>
  The page of the specification's example, a page with a link that \<open>new URL\<close> rejects,
  and services that serve them: the examples against which the theorems below are
  instantiated.
\<close>

definition examplePage :: document where
  "examplePage =
     [Element ''html'' []
        [Element ''head'' [] [Element ''title'' [] [Text ''Yale Test'']],
         Element ''body'' [] [Element ''p'' [] [Text ''Welcome to Yale'']]]]"

definition brokenPage :: document where
  "brokenPage =
     [Element ''html'' []
        [Element ''head'' [] [],
         Element ''body'' [] [Element ''a'' [(''href'', ''ftp://'')] [Text ''Yale'']]]]"

text \<open>
  A resolver for the examples. It agrees with \<open>new URL(value, base).href\<close> on the values
  that the examples use: relative paths without dots against a base that ends its path
  with a slash or has none, a base that is not absolute, an absolute URL written in
  capitals, and a URL without a host.
\<close>

definition exampleResolve :: resolver where
  "exampleResolve v base =
     (if v = ''ftp://'' \<or> \<not> beginsWithScheme base then Inl ''Invalid URL''
      else if v = ''HTTPS://example.com'' then Inr ''https://example.com/''
      else Inr ((if last base = CHR ''/'' then base else base @ ''/'') @ v))"

text \<open>
  A source URL with two double quotes in its query.
\<close>

definition quotedUrl :: string where
  "quotedUrl = ''https://example.com/?q='' @ [CHR 0x22] @ ''x'' @ [CHR 0x22]"

text \<open>
  A fragment parser for the examples. It agrees with the library on the strings that the
  examples use: the style markup, the base markup for a URL without double quote and
  ampersand and for \<open>quotedUrl\<close>, text without markup and character references, and
  five strings with markup or character references, which it parses as HTML does.
\<close>

definition exampleParse :: parser where
  "exampleParse s =
     (if s = styleMarkup then styleBlock
      else if s = baseMarkup quotedUrl
        then [Element ''base''
                [(''href'', ''https://example.com/?q=''), (''x'' @ [CHR 0x22, CHR 0x22], [])] []]
      else if s = ''Fale <b>bold</b>'' then [Text ''Fale '', Element ''b'' [] [Text ''bold'']]
      else if s = ''<p>Fale</p>'' then [Element ''p'' [] [Text ''Fale'']]
      else if s = ''Fale <base href=x>''
        then [Text ''Fale '', Element ''base'' [(''href'', ''x'')] []]
      else if s = ''Fale &#89;ale &amp;#89;ale'' then [Text ''Fale Yale &#89;ale'']
      else if s = ''Fale Fale &#89;ale'' then [Text ''Fale Fale Yale'']
      else if take 12 s = ''<base href='' @ [CHR 0x22]
        then [Element ''base'' [(''href'', take (length s - 14) (drop 12 s))] []]
      else [Text s])"

definition exampleServices :: services where
  "exampleServices =
     \<lparr>axiosGet = (\<lambda>url.
        if url = ''https://example.com'' then Inr ''<title>Yale Test</title><p>Welcome to Yale</p>''
        else if url = ''https://example.com/broken'' then Inr ''<a href=ftp://>Yale</a>''
        else Inl ''Connection refused''),
      load = (\<lambda>data.
        if data = ''<a href=ftp://>Yale</a>'' then Inr brokenPage else Inr examplePage),
      parseFragment = exampleParse,
      newURL = exampleResolve,
      html = (\<lambda>doc. Inr (getText ''p'' doc))\<rparr>"

text \<open>
  Services whose parser throws on the body \<open>{}\<close> and whose serializer always throws.
\<close>

definition faultyServices :: services where
  "faultyServices =
     \<lparr>axiosGet = (\<lambda>url.
        if url = ''https://example.com'' then Inr ''<title>Yale Test</title><p>Welcome to Yale</p>''
        else if url = ''https://example.com/data'' then Inr ''{}''
        else Inl ''Connection refused''),
      load = (\<lambda>data. if data = ''{}'' then Inl ''Cannot parse'' else Inr examplePage),
      parseFragment = exampleParse,
      newURL = exampleResolve,
      html = (\<lambda>doc. Inl ''Cannot serialize'')\<rparr>"



definition noscriptPage :: document where
  "noscriptPage =
     [Element ''html'' []
        [Element ''head'' [] [],
         Element ''body'' [] [Element ''noscript'' [] [Text ''<p>Yale</p>'']]]]"

definition escapedBasePage :: document where
  "escapedBasePage =
     [Element ''html'' []
        [Element ''head'' [] [Element ''base'' [(''href'', ''https://b.example/'')] []],
         Element ''body'' [] [Element ''p'' [] [Text ''Yale <base href=x>'']]]]"


definition svgPage :: document where
  "svgPage =
     [Element ''html'' []
        [Element ''head'' [] [],
         Element ''body'' []
           [Element ''svg'' [] [Element ''style'' [] [Element ''g'' [] [Text ''Yale'']]]]]]"

definition relativePage :: document where
  "relativePage =
     [Element ''html'' []
        [Element ''head'' [] [Element ''title'' [] [Text ''Test Page'']],
         Element ''body'' []
           [Element ''img'' [(''src'', ''images/photo.jpg'')] [],
            Element ''a'' [(''href'', ''about'')] [Text ''About''],
            Element ''form'' [(''action'', ''submit'')] [],
            Element ''div'' [(''data-src'', ''data.json'')] [],
            Element ''a'' [(''href'', ''#section'')] [Text ''Section''],
            Element ''img'' [(''src'', ''//cdn.example.com/image.jpg'')] []]]]"

definition titlePage :: document where
  "titlePage =
     [Element ''html'' []
        [Element ''head'' [] [Element ''title'' [] [Text ''Yale Home'']],
         Element ''body'' []
           [Element ''svg'' []
              [Element ''title'' [] [Text ''Yale '', Element ''tspan'' [] [Text ''logo'']]]]]]"

definition basePage :: document where
  "basePage =
     [Element ''html'' []
        [Element ''head'' []
           [Element ''base'' [(''href'', ''https://existing-base.com/subdirectory/'')] [],
            Element ''title'' [] [Text ''Test Page'']],
         Element ''body'' [] [Element ''img'' [(''src'', ''photo.jpg'')] []]]]"

definition relativeBasePage :: document where
  "relativeBasePage =
     [Element ''html'' []
        [Element ''head'' [] [Element ''base'' [(''href'', ''assets/'')] []],
         Element ''body'' [] [Element ''img'' [(''src'', ''photo.jpg'')] []]]]"


definition titledBasePage :: document where
  "titledBasePage =
     [Element ''html'' []
        [Element ''head'' [] [],
         Element ''body'' []
           [Element ''svg'' []
              [Element ''title'' []
                 [Element ''base'' [(''href'', ''https://existing-base.com/subdirectory/'')] []]]]]]"

definition targetBasePage :: document where
  "targetBasePage =
     [Element ''html'' []
        [Element ''head'' []
           [Element ''base'' [(''target'', ''_blank'')] [],
            Element ''base'' [(''href'', ''https://existing-base.com/subdirectory/'')] []],
         Element ''body'' [] []]]"

section \<open>Properties of the handler\<close>

subsection \<open>The scheme test of line 29\<close>

lemma canon_h: "canonicalize CHR ''h'' = canonicalize c \<longleftrightarrow> toLowerCase c = CHR ''h''"
  by (auto simp: canonicalize_def toLowerCase_def split: if_splits)

lemma canon_t: "canonicalize CHR ''t'' = canonicalize c \<longleftrightarrow> toLowerCase c = CHR ''t''"
  by (auto simp: canonicalize_def toLowerCase_def split: if_splits)

lemma canon_p: "canonicalize CHR ''p'' = canonicalize c \<longleftrightarrow> toLowerCase c = CHR ''p''"
  by (auto simp: canonicalize_def toLowerCase_def split: if_splits)

lemma canon_s: "canonicalize CHR ''s'' = canonicalize c \<longleftrightarrow> toLowerCase c = CHR ''s''"
  by (auto simp: canonicalize_def toLowerCase_def split: if_splits)

lemma canon_colon: "canonicalize CHR '':'' = canonicalize c \<longleftrightarrow> toLowerCase c = CHR '':''"
  by (auto simp: canonicalize_def toLowerCase_def split: if_splits)

lemma canon_slash: "canonicalize CHR ''/'' = canonicalize c \<longleftrightarrow> toLowerCase c = CHR ''/''"
  by (auto simp: canonicalize_def toLowerCase_def split: if_splits)

lemma matchChars_Cons:
  "matchChars (p # ps) s =
     (case s of
        [] \<Rightarrow> None
      | c # cs \<Rightarrow> if canonicalize p = canonicalize c then matchChars ps cs else None)"
  by (cases s) simp_all

lemma take_numeral_case:
  "take (numeral k) s = (case s of [] \<Rightarrow> [] | c # cs \<Rightarrow> c # take (pred_numeral k) cs)"
  by (cases s) (simp_all add: take_Cons_numeral)

lemma matchScheme_iff: "matchScheme s = beginsWithScheme s"
  unfolding matchScheme_def beginsWithScheme_def
  by (simp add: matchChars_Cons take_numeral_case canon_h canon_t canon_p canon_s canon_colon
      canon_slash split: list.splits option.splits)

subsection \<open>Requests without a usable URL\<close>

text \<open>
  C7. A request whose body has no field \<open>url\<close>, or has the empty string there, is
  answered with status 400 and the error \<open>URL is required\<close>, and nothing is requested
  from \<open>axios.get\<close>.
\<close>

theorem missing_url_400:
  assumes "body ''url'' = None \<or> body ''url'' = Some (JString [])"
  shows "fetchHandler sv body = (\<lparr>status = 400, payload = Failure ''URL is required''\<rparr>, [])"
  using assms by (auto simp: fetchHandler_def)

theorem missing_url_400_witness:
  "\<forall>sv. fetchHandler sv Map.empty = (\<lparr>status = 400, payload = Failure ''URL is required''\<rparr>, [])
      \<and> fetchHandler sv [''url'' \<mapsto> JString []]
          = (\<lparr>status = 400, payload = Failure ''URL is required''\<rparr>, [])"
  using missing_url_400[of Map.empty] missing_url_400[of "[''url'' \<mapsto> JString []]"] by simp

text \<open>
  C10. A request whose \<open>url\<close> is truthy and not a string is not answered with 400: the
  \<open>TypeError\<close> of line 29 reaches the \<open>catch\<close> block, the status is 500 and the error
  begins with \<open>Failed to fetch content: \<close>. Nothing is requested from \<open>axios.get\<close>.
\<close>

theorem non_string_url_500:
  assumes "truthy (body ''url'')" and "\<forall>s. body ''url'' \<noteq> Some (JString s)"
  shows "status (fst (fetchHandler sv body)) = 500
     \<and> status (fst (fetchHandler sv body)) \<noteq> 400
     \<and> payload (fst (fetchHandler sv body))
         = Failure (''Failed to fetch content: '' @ ''url.match is not a function'')
     \<and> snd (fetchHandler sv body) = []"
proof -
  obtain v where v: "body ''url'' = Some v"
    using assms(1) by (cases "body ''url''") auto
  with assms(2) have "\<forall>s. v \<noteq> JString s" by simp
  then have "fetchHandler sv body = (failed ''url.match is not a function'', [])"
    using assms(1) v by (cases v) (simp_all add: fetchHandler_def)
  then show ?thesis by (simp add: failed_def)
qed

theorem non_string_url_500_witness:
  "\<forall>sv. truthy ([''url'' \<mapsto> JNumber 42] ''url'')
     \<and> status (fst (fetchHandler sv [''url'' \<mapsto> JNumber 42])) = 500
     \<and> payload (fst (fetchHandler sv [''url'' \<mapsto> JNumber 42]))
         = Failure ''Failed to fetch content: url.match is not a function''"
  using non_string_url_500[of "[''url'' \<mapsto> JNumber 42]"] by simp

subsection \<open>Normalization and failures\<close>

text \<open>
  C6. The URL of the request is left as it is when it begins with \<open>http://\<close> or
  \<open>https://\<close> in any mix of cases, and gets \<open>https://\<close> in front otherwise;
  \<open>normalizeUrl\<close> is a total function on strings. When the fetch and the rewrite
  succeed, the field \<open>originalUrl\<close> of the response is the normalized URL, which is also
  the URL that was fetched.
\<close>

theorem normalizeUrl_prepends_scheme:
  "normalizeUrl s = (if beginsWithScheme s then s else ''https://'' @ s)
   \<and> (body ''url'' = Some (JString s) \<and> s \<noteq> []
        \<and> axiosGet sv (normalizeUrl s) = Inr data
        \<and> load sv data = Inr page
        \<and> rewrite (parseFragment sv) (newURL sv) (normalizeUrl s) page = Inr (doc, title)
        \<and> html sv doc = Inr content
      \<longrightarrow> fetchHandler sv body
            = (\<lparr>status = 200, payload = Page content title (normalizeUrl s)\<rparr>, [normalizeUrl s]))"
proof (intro conjI impI)
  show "normalizeUrl s = (if beginsWithScheme s then s else ''https://'' @ s)"
    by (simp add: normalizeUrl_def matchScheme_iff)
next
  assume "body ''url'' = Some (JString s) \<and> s \<noteq> []
        \<and> axiosGet sv (normalizeUrl s) = Inr data
        \<and> load sv data = Inr page
        \<and> rewrite (parseFragment sv) (newURL sv) (normalizeUrl s) page = Inr (doc, title)
        \<and> html sv doc = Inr content"
  then show "fetchHandler sv body
            = (\<lparr>status = 200, payload = Page content title (normalizeUrl s)\<rparr>, [normalizeUrl s])"
    by (simp add: fetchHandler_def Let_def)
qed

lemma example_rewrite:
  "rewrite (parseFragment exampleServices) (newURL exampleServices) ''https://example.com'' examplePage = Inr
  ([Element ''html'' []
     [Element ''head'' []
       ([Element ''base'' [(''href'', ''https://example.com'')] [],
        Element ''title'' [] [Text ''Fale Test'']] @ styleBlock),
      Element ''body'' [] [Element ''p'' [] [Text ''Welcome to Fale'']]]],
  ''Fale Test'')"
  by code_simp

theorem normalizeUrl_prepends_scheme_witness:
  "normalizeUrl ''example.com'' = ''https://example.com''
   \<and> normalizeUrl ''HTTP://example.com'' = ''HTTP://example.com''
   \<and> fetchHandler exampleServices [''url'' \<mapsto> JString ''example.com'']
       = (\<lparr>status = 200, payload = Page ''Welcome to Fale'' ''Fale Test'' ''https://example.com''\<rparr>,
          [''https://example.com''])"
proof -
  have b1: "\<not> beginsWithScheme ''example.com''" by (simp add: beginsWithScheme_def toLowerCase_def)
  have b2: "beginsWithScheme ''HTTP://example.com''"
    by (simp add: beginsWithScheme_def toLowerCase_def)
  note t1 = normalizeUrl_prepends_scheme[of "''example.com''" "[''url'' \<mapsto> JString ''example.com'']"
        exampleServices "''<title>Yale Test</title><p>Welcome to Yale</p>''" examplePage _
        "''Fale Test''" "''Welcome to Fale''"]
  note t2 = normalizeUrl_prepends_scheme[of "''HTTP://example.com''"]
  have n: "normalizeUrl ''example.com'' = ''https://example.com''" using t1 b1 by simp
  have g: "axiosGet exampleServices ''https://example.com'' = Inr ''<title>Yale Test</title><p>Welcome to Yale</p>''"
    by (simp add: exampleServices_def)
  have l: "load exampleServices ''<title>Yale Test</title><p>Welcome to Yale</p>'' = Inr examplePage"
    by (simp add: exampleServices_def)
  have h: "html exampleServices
     [Element ''html'' []
       [Element ''head'' []
         ([Element ''base'' [(''href'', ''https://example.com'')] [],
           Element ''title'' [] [Text ''Fale Test'']] @ styleBlock),
        Element ''body'' [] [Element ''p'' [] [Text ''Welcome to Fale'']]]] = Inr ''Welcome to Fale''"
    by (simp add: exampleServices_def getText_def selectAll_def styleBlock_def)
  from t1 n g l example_rewrite h
  have "fetchHandler exampleServices [''url'' \<mapsto> JString ''example.com'']
       = (\<lparr>status = 200, payload = Page ''Welcome to Fale'' ''Fale Test'' ''https://example.com''\<rparr>,
          [''https://example.com''])"
    by simp
  with n t2 b2 show ?thesis by simp
qed

text \<open>
  C8. When \<open>axios.get\<close> fails with a message (no answer, or a status that is not a
  success), when the parser or the serializer of the library throws, or when URL
  resolution throws during the rewrite, the response has status 500 and its error is
  \<open>Failed to fetch content: \<close> followed by that message. Every response is either an
  error object with status 400 or 500, or it has status 200 and holds the whole result:
  the page was fetched from the normalized URL and parsed, the rewrite of the parsed page
  ran to its end, and the response holds the serialization of the tree that the rewrite
  gave, the title that it gave, and the normalized URL.
\<close>

theorem failure_gives_500:
  "(body ''url'' = Some (JString s) \<and> s \<noteq> []
      \<and> (axiosGet sv (normalizeUrl s) = Inl m
         \<or> (\<exists>data. axiosGet sv (normalizeUrl s) = Inr data \<and> load sv data = Inl m)
         \<or> (\<exists>data page. axiosGet sv (normalizeUrl s) = Inr data \<and> load sv data = Inr page
               \<and> rewrite (parseFragment sv) (newURL sv) (normalizeUrl s) page = Inl m)
         \<or> (\<exists>data page doc title. axiosGet sv (normalizeUrl s) = Inr data
               \<and> load sv data = Inr page
               \<and> rewrite (parseFragment sv) (newURL sv) (normalizeUrl s) page = Inr (doc, title)
               \<and> html sv doc = Inl m))
     \<longrightarrow> fetchHandler sv body
           = (\<lparr>status = 500, payload = Failure (''Failed to fetch content: '' @ m)\<rparr>,
              [normalizeUrl s]))
   \<and> (case payload (fst (fetchHandler sv body)) of
         Page content title u \<Rightarrow>
           status (fst (fetchHandler sv body)) = 200
           \<and> (\<exists>s data page doc. body ''url'' = Some (JString s) \<and> s \<noteq> []
                 \<and> u = normalizeUrl s
                 \<and> axiosGet sv u = Inr data
                 \<and> load sv data = Inr page
                 \<and> rewrite (parseFragment sv) (newURL sv) u page = Inr (doc, title)
                 \<and> html sv doc = Inr content)
       | Failure e \<Rightarrow> status (fst (fetchHandler sv body)) = 400
           \<or> status (fst (fetchHandler sv body)) = 500)"
proof (intro conjI impI)
  assume a: "body ''url'' = Some (JString s) \<and> s \<noteq> []
      \<and> (axiosGet sv (normalizeUrl s) = Inl m
         \<or> (\<exists>data. axiosGet sv (normalizeUrl s) = Inr data \<and> load sv data = Inl m)
         \<or> (\<exists>data page. axiosGet sv (normalizeUrl s) = Inr data \<and> load sv data = Inr page
               \<and> rewrite (parseFragment sv) (newURL sv) (normalizeUrl s) page = Inl m)
         \<or> (\<exists>data page doc title. axiosGet sv (normalizeUrl s) = Inr data
               \<and> load sv data = Inr page
               \<and> rewrite (parseFragment sv) (newURL sv) (normalizeUrl s) page = Inr (doc, title)
               \<and> html sv doc = Inl m))"
  then show "fetchHandler sv body
           = (\<lparr>status = 500, payload = Failure (''Failed to fetch content: '' @ m)\<rparr>,
              [normalizeUrl s])"
    by (auto simp: fetchHandler_def Let_def failed_def)
next
  show "case payload (fst (fetchHandler sv body)) of
         Page content title u \<Rightarrow>
           status (fst (fetchHandler sv body)) = 200
           \<and> (\<exists>s data page doc. body ''url'' = Some (JString s) \<and> s \<noteq> []
                 \<and> u = normalizeUrl s
                 \<and> axiosGet sv u = Inr data
                 \<and> load sv data = Inr page
                 \<and> rewrite (parseFragment sv) (newURL sv) u page = Inr (doc, title)
                 \<and> html sv doc = Inr content)
       | Failure e \<Rightarrow> status (fst (fetchHandler sv body)) = 400
           \<or> status (fst (fetchHandler sv body)) = 500"
  proof (cases "body ''url''")
    case None
    then have fh: "fetchHandler sv body
        = (\<lparr>status = 400, payload = Failure ''URL is required''\<rparr>, [])"
      by (simp add: fetchHandler_def Let_def)
    show ?thesis unfolding fh by simp
  next
    case (Some v)
    show ?thesis
    proof (cases "\<exists>s. v = JString s")
      case False
      then have "fetchHandler sv body = (\<lparr>status = 400, payload = Failure ''URL is required''\<rparr>, [])
          \<or> fetchHandler sv body = (failed ''url.match is not a function'', [])"
        using Some by (cases v) (simp_all add: fetchHandler_def Let_def)
      then show ?thesis
      proof
        assume fh: "fetchHandler sv body
            = (\<lparr>status = 400, payload = Failure ''URL is required''\<rparr>, [])"
        show ?thesis unfolding fh by simp
      next
        assume fh: "fetchHandler sv body = (failed ''url.match is not a function'', [])"
        show ?thesis unfolding fh by (simp add: failed_def)
      qed
    next
      case True
      then obtain s where JString: "v = JString s" by blast
      show ?thesis
      proof (cases "s = []")
        case True
        with Some JString have fh: "fetchHandler sv body
            = (\<lparr>status = 400, payload = Failure ''URL is required''\<rparr>, [])"
          by (simp add: fetchHandler_def Let_def)
        show ?thesis unfolding fh by simp
      next
        case False
        show ?thesis
        proof (cases "axiosGet sv (normalizeUrl s)")
          case (Inl m)
          with Some JString False have fh: "fetchHandler sv body = (failed m, [normalizeUrl s])"
            by (simp add: fetchHandler_def Let_def)
          show ?thesis unfolding fh by (simp add: failed_def)
        next
          case g: (Inr data)
          show ?thesis
          proof (cases "load sv data")
            case (Inl m)
            with Some JString False g
            have fh: "fetchHandler sv body = (failed m, [normalizeUrl s])"
              by (simp add: fetchHandler_def Let_def)
            show ?thesis unfolding fh by (simp add: failed_def)
          next
            case l: (Inr page)
            show ?thesis
            proof (cases "rewrite (parseFragment sv) (newURL sv) (normalizeUrl s) page")
              case (Inl m)
              with Some JString False g l
              have fh: "fetchHandler sv body = (failed m, [normalizeUrl s])"
                by (simp add: fetchHandler_def Let_def)
              show ?thesis unfolding fh by (simp add: failed_def)
            next
              case (Inr r)
              obtain doc t where r: "r = (doc, t)" by (cases r)
              show ?thesis
              proof (cases "html sv doc")
                case (Inl m)
                with Some JString False g l Inr r
                have fh: "fetchHandler sv body = (failed m, [normalizeUrl s])"
                  by (simp add: fetchHandler_def Let_def)
                show ?thesis unfolding fh by (simp add: failed_def)
              next
                case h: (Inr content)
                with Some JString False g l Inr r
                have fh: "fetchHandler sv body
                    = (\<lparr>status = 200, payload = Page content t (normalizeUrl s)\<rparr>,
                       [normalizeUrl s])"
                  by (simp add: fetchHandler_def Let_def)
                from Some JString False g l Inr r h show ?thesis unfolding fh by auto
              qed
            qed
          qed
        qed
      qed
    qed
  qed
qed

lemma broken_rewrite:
  "rewrite (parseFragment exampleServices) (newURL exampleServices) ''https://example.com/broken'' brokenPage = Inl ''Invalid URL''"
  by code_simp

lemma faulty_rewrite:
  "rewrite (parseFragment faultyServices) (newURL faultyServices) ''https://example.com'' examplePage = Inr
  ([Element ''html'' []
     [Element ''head'' []
       ([Element ''base'' [(''href'', ''https://example.com'')] [],
        Element ''title'' [] [Text ''Fale Test'']] @ styleBlock),
      Element ''body'' [] [Element ''p'' [] [Text ''Welcome to Fale'']]]],
  ''Fale Test'')"
  by code_simp

theorem failure_gives_500_witness:
  "fetchHandler exampleServices [''url'' \<mapsto> JString ''error-site.com'']
     = (\<lparr>status = 500, payload = Failure ''Failed to fetch content: Connection refused''\<rparr>,
        [''https://error-site.com''])
   \<and> fetchHandler exampleServices [''url'' \<mapsto> JString ''https://example.com/broken'']
     = (\<lparr>status = 500, payload = Failure ''Failed to fetch content: Invalid URL''\<rparr>,
        [''https://example.com/broken''])
   \<and> fetchHandler faultyServices [''url'' \<mapsto> JString ''https://example.com/data'']
     = (\<lparr>status = 500, payload = Failure ''Failed to fetch content: Cannot parse''\<rparr>,
        [''https://example.com/data''])
   \<and> fetchHandler faultyServices [''url'' \<mapsto> JString ''https://example.com'']
     = (\<lparr>status = 500, payload = Failure ''Failed to fetch content: Cannot serialize''\<rparr>,
        [''https://example.com''])
   \<and> payload (fst (fetchHandler exampleServices [''url'' \<mapsto> JString ''example.com'']))
     = Page ''Welcome to Fale'' ''Fale Test'' ''https://example.com''
   \<and> status (fst (fetchHandler exampleServices [''url'' \<mapsto> JString ''example.com''])) = 200
   \<and> (\<exists>data page doc. axiosGet exampleServices ''https://example.com'' = Inr data
         \<and> load exampleServices data = Inr page
         \<and> rewrite (parseFragment exampleServices) (newURL exampleServices)
             ''https://example.com'' page = Inr (doc, ''Fale Test'')
         \<and> html exampleServices doc = Inr ''Welcome to Fale'')"
proof -
  have n1: "normalizeUrl ''error-site.com'' = ''https://error-site.com''" by code_simp
  have n2: "normalizeUrl ''https://example.com/broken'' = ''https://example.com/broken''"
    by code_simp
  have n3: "normalizeUrl ''https://example.com/data'' = ''https://example.com/data''"
    by code_simp
  have n4: "normalizeUrl ''https://example.com'' = ''https://example.com''" by code_simp
  have n5: "normalizeUrl ''example.com'' = ''https://example.com''" by code_simp
  have g1: "axiosGet exampleServices ''https://error-site.com'' = Inl ''Connection refused''"
    by (simp add: exampleServices_def)
  have g2: "axiosGet exampleServices ''https://example.com/broken'' = Inr ''<a href=ftp://>Yale</a>''"
    by (simp add: exampleServices_def)
  have l2: "load exampleServices ''<a href=ftp://>Yale</a>'' = Inr brokenPage"
    by (simp add: exampleServices_def)
  have g3: "axiosGet faultyServices ''https://example.com/data'' = Inr ''{}''"
    by (simp add: faultyServices_def)
  have l3: "load faultyServices ''{}'' = Inl ''Cannot parse''"
    by (simp add: faultyServices_def)
  have g4: "axiosGet faultyServices ''https://example.com''
      = Inr ''<title>Yale Test</title><p>Welcome to Yale</p>''"
    by (simp add: faultyServices_def)
  have l4: "load faultyServices ''<title>Yale Test</title><p>Welcome to Yale</p>'' = Inr examplePage"
    by (simp add: faultyServices_def)
  have h4: "html faultyServices doc = Inl ''Cannot serialize''" for doc
    by (simp add: faultyServices_def)
  have g5: "axiosGet exampleServices ''https://example.com''
      = Inr ''<title>Yale Test</title><p>Welcome to Yale</p>''"
    by (simp add: exampleServices_def)
  have l5: "load exampleServices ''<title>Yale Test</title><p>Welcome to Yale</p>'' = Inr examplePage"
    by (simp add: exampleServices_def)
  have h5: "html exampleServices
     [Element ''html'' []
       [Element ''head'' []
         ([Element ''base'' [(''href'', ''https://example.com'')] [],
           Element ''title'' [] [Text ''Fale Test'']] @ styleBlock),
        Element ''body'' [] [Element ''p'' [] [Text ''Welcome to Fale'']]]] = Inr ''Welcome to Fale''"
    by (simp add: exampleServices_def getText_def selectAll_def styleBlock_def)
  have p5: "fetchHandler exampleServices [''url'' \<mapsto> JString ''example.com'']
       = (\<lparr>status = 200, payload = Page ''Welcome to Fale'' ''Fale Test'' ''https://example.com''\<rparr>,
          [''https://example.com''])"
    using n5 g5 l5 example_rewrite h5 by (simp add: fetchHandler_def Let_def)
  have c1: "fetchHandler exampleServices [''url'' \<mapsto> JString ''error-site.com'']
     = (\<lparr>status = 500, payload = Failure ''Failed to fetch content: Connection refused''\<rparr>,
        [''https://error-site.com''])"
    using failure_gives_500[of "[''url'' \<mapsto> JString ''error-site.com'']" "''error-site.com''"
        exampleServices "''Connection refused''"] n1 g1 by simp
  have c2: "fetchHandler exampleServices [''url'' \<mapsto> JString ''https://example.com/broken'']
     = (\<lparr>status = 500, payload = Failure ''Failed to fetch content: Invalid URL''\<rparr>,
        [''https://example.com/broken''])"
    using failure_gives_500[of "[''url'' \<mapsto> JString ''https://example.com/broken'']"
        "''https://example.com/broken''" exampleServices "''Invalid URL''"] n2 g2 l2 broken_rewrite
    by simp
  have c3: "fetchHandler faultyServices [''url'' \<mapsto> JString ''https://example.com/data'']
     = (\<lparr>status = 500, payload = Failure ''Failed to fetch content: Cannot parse''\<rparr>,
        [''https://example.com/data''])"
    using failure_gives_500[of "[''url'' \<mapsto> JString ''https://example.com/data'']"
        "''https://example.com/data''" faultyServices "''Cannot parse''"] n3 g3 l3
    by simp
  have c4: "fetchHandler faultyServices [''url'' \<mapsto> JString ''https://example.com'']
     = (\<lparr>status = 500, payload = Failure ''Failed to fetch content: Cannot serialize''\<rparr>,
        [''https://example.com''])"
    using failure_gives_500[of "[''url'' \<mapsto> JString ''https://example.com'']"
        "''https://example.com''" faultyServices "''Cannot serialize''"] n4 g4 l4 faulty_rewrite h4
    by simp
  have c5: "\<exists>data page doc. axiosGet exampleServices ''https://example.com'' = Inr data
         \<and> load exampleServices data = Inr page
         \<and> rewrite (parseFragment exampleServices) (newURL exampleServices)
             ''https://example.com'' page = Inr (doc, ''Fale Test'')
         \<and> html exampleServices doc = Inr ''Welcome to Fale''"
    using failure_gives_500[of "[''url'' \<mapsto> JString ''example.com'']" "''example.com''"
        exampleServices "[]", THEN conjunct2] p5 n5
    by auto
  from c1 c2 c3 c4 c5 p5 show ?thesis by simp
qed

section \<open>Properties of the rewrite\<close>

subsection \<open>The three replacements leave none of the three words\<close>

lemma replaceAll_pointwise:
  assumes "list_all2 (swapped f) p r"
  shows "list_all2 (swapped f) s (replaceAll p r s)"
  using assms
proof (induction p r s rule: replaceAll.induct)
  case (1 p r)
  show ?case by simp
next
  case (2 p r c cs)
  show ?case
  proof (cases "p \<noteq> [] \<and> take (length p) (c # cs) = p")
    case True
    then have split: "c # cs = p @ drop (length p) (c # cs)"
      by (metis append_take_drop_id)
    have "list_all2 (swapped f) (p @ drop (length p) (c # cs))
            (r @ replaceAll p r (drop (length p) (c # cs)))"
      using 2 True by (intro list_all2_appendI) auto
    with split True show ?thesis by simp
  next
    case False
    with 2 show ?thesis by (auto simp: swapped_def)
  qed
qed

lemma swapped_same:
  "list_all2 (swapped f) xs q \<Longrightarrow> f \<notin> set q \<Longrightarrow> xs = q"
  by (induction xs q rule: list_all2_induct) (auto simp: swapped_def)

lemma swapped_take:
  assumes "list_all2 (swapped f) s t" and "take n t = q" and "f \<notin> set q"
  shows "take n s = q"
proof -
  have "list_all2 (swapped f) (take n s) q"
    using assms(1,2) list_all2_takeI by blast
  with assms(3) show ?thesis
    by (rule swapped_same[rotated])
qed

lemma occurs_pointwise:
  "list_all2 (swapped f) s t \<Longrightarrow> f \<notin> set q \<Longrightarrow> occurs q t \<Longrightarrow> occurs q s"
proof (induction s t rule: list_all2_induct)
  case Nil
  then show ?case by simp
next
  case (Cons a s b t)
  from Cons.prems(2) consider "take (length q) (b # t) = q" | "occurs q t" by auto
  then show ?case
  proof cases
    case 1
    have "list_all2 (swapped f) (a # s) (b # t)" using Cons.hyps by simp
    from swapped_take[OF this 1 Cons.prems(1)] show ?thesis by simp
  next
    case 2
    with Cons show ?thesis by simp
  qed
qed

lemma occurs_append_fresh:
  "p \<noteq> [] \<Longrightarrow> hd p \<notin> set r \<Longrightarrow> occurs p (r @ t) = occurs p t"
  by (induction r) (auto simp: take_Cons' neq_Nil_conv split: if_splits)

lemma replaceAll_removes:
  assumes "list_all2 (swapped f) p r" and "f \<notin> set p" and "p \<noteq> []" and "hd p \<notin> set r"
  shows "\<not> occurs p (replaceAll p r s)"
  using assms
proof (induction p r s rule: replaceAll.induct)
  case (1 p r)
  then show ?case by simp
next
  case (2 p r c cs)
  show ?case
  proof (cases "take (length p) (c # cs) = p")
    case True
    with 2 show ?thesis by (simp add: occurs_append_fresh)
  next
    case False
    have pw: "list_all2 (swapped f) (c # cs) (replaceAll p r (c # cs))"
      using 2(3) by (rule replaceAll_pointwise)
    have "take (length p) (replaceAll p r (c # cs)) \<noteq> p"
      using swapped_take[OF pw _ 2(4)] False by blast
    with 2 False show ?thesis by simp
  qed
qed

lemma replaceAll_keeps:
  assumes "list_all2 (swapped f) p r" and "f \<notin> set q" and "\<not> occurs q s"
  shows "\<not> occurs q (replaceAll p r s)"
  using occurs_pointwise[OF replaceAll_pointwise[OF assms(1)] assms(2)] assms(3) by blast

lemma replaceAll_absent: "\<not> occurs p s \<Longrightarrow> replaceAll p r s = s"
  by (induction p r s rule: replaceAll.induct) auto

lemma swapped_Yale: "list_all2 (swapped CHR ''F'') ''Yale'' ''Fale''"
  by (simp add: swapped_def)

lemma swapped_YALE: "list_all2 (swapped CHR ''F'') ''YALE'' ''FALE''"
  by (simp add: swapped_def)

lemma swapped_yale: "list_all2 (swapped CHR ''f'') ''yale'' ''fale''"
  by (simp add: swapped_def)

lemma yaleFree_substitute: "yaleFree (substitute s)"
proof -
  let ?a = "replaceAll ''Yale'' ''Fale'' s"
  let ?b = "replaceAll ''YALE'' ''FALE'' ?a"
  have a: "\<not> occurs ''Yale'' ?a" by (rule replaceAll_removes[OF swapped_Yale]) simp_all
  have b1: "\<not> occurs ''Yale'' ?b" by (rule replaceAll_keeps[OF swapped_YALE _ a]) simp
  have b2: "\<not> occurs ''YALE'' ?b" by (rule replaceAll_removes[OF swapped_YALE]) simp_all
  have "\<not> occurs ''Yale'' (substitute s)"
    unfolding substitute_def by (rule replaceAll_keeps[OF swapped_yale _ b1]) simp
  moreover have "\<not> occurs ''YALE'' (substitute s)"
    unfolding substitute_def by (rule replaceAll_keeps[OF swapped_yale _ b2]) simp
  moreover have "\<not> occurs ''yale'' (substitute s)"
    unfolding substitute_def by (rule replaceAll_removes[OF swapped_yale]) simp_all
  ultimately show ?thesis by (simp add: yaleFree_def)
qed

lemma substitute_yaleFree: "yaleFree s \<Longrightarrow> substitute s = s"
  by (simp add: substitute_def yaleFree_def replaceAll_absent)

lemma substitute_idem: "substitute (substitute s) = substitute s"
  by (rule substitute_yaleFree) (rule yaleFree_substitute)

subsection \<open>The substitution pass where text is parsed as text\<close>

lemma nodeType_text: "nodeType x = ''text'' \<longleftrightarrow> (\<exists>t. x = Text t)"
  by (cases x) auto

text \<open>
  A text node that holds none of the three words is passed over, however often the
  children are gone through.
\<close>

lemma processContents_fixed:
  "(processContents P ^^ k) [Text (substitute t)] = [Text (substitute t)]"
  by (induction k) (simp_all add: substitute_idem)

text \<open>
  Where every replaced text node comes back from the parser as one text node,
  \<open>$('*').each(processNode)\<close> is one map over the tree.
\<close>

lemma eachProcessNode_plain:
  "stableText P x \<Longrightarrow> eachProcessNode P m x = rewriteText x"
  "list_all (stableChild P v) cs \<Longrightarrow>
     eachContents P v cs
       = map (\<lambda>c. if nodeType c = ''text'' \<and> v \<noteq> 0 then Text (substitute (textContent c))
                  else rewriteText c) cs"
proof (induction P m x and P v cs rule: eachProcessNode_eachContents.induct)
  case (1 P m n as cs)
  let ?v = "if n = ''script'' \<or> n = ''style'' then 0 else Suc m"
  from "1.prems" have "list_all (stableChild P ?v) cs"
    by (auto simp: list_all_iff stableChild_def)
  from "1.IH"[OF this] show ?case by auto
next
  case (6 P v c cs)
  from "6.prems" have c: "stableChild P v c" and cs: "list_all (stableChild P v) cs" by simp_all
  note tl = "6.IH"(2)[OF cs]
  show ?case
  proof (cases "nodeType c = ''text''")
    case True
    then obtain t where t: "c = Text t" by (auto simp: nodeType_text)
    from c t have "v = 0 \<or> substitute t = t \<or> P (substitute t) = [Text (substitute t)]"
      by (simp add: stableChild_def)
    then show ?thesis using t tl by (auto simp: Let_def processContents_fixed)
  next
    case False
    with c have "stableText P c" by (simp add: stableChild_def)
    from "6.IH"(1)[OF False this] False tl show ?thesis by simp
  qed
qed simp_all

lemma eachProcessNode_map:
  "list_all (stableText P) doc \<Longrightarrow> map (eachProcessNode P m) doc = map rewriteText doc"
  by (induction doc) (simp_all add: eachProcessNode_plain(1))

lemma stableText_prependTo:
  "stableText P x \<Longrightarrow> list_all (stableText P) new \<Longrightarrow> list_all isElement new
     \<Longrightarrow> stableText P (prependTo h new x)"
proof (induction x)
  case (Element n as cs)
  have t: "nodeType (prependTo h new c) = ''text'' \<longleftrightarrow> nodeType c = ''text''" for c
    by (cases c) simp_all
  have tc: "nodeType c = ''text'' \<Longrightarrow> prependTo h new c = c" for c
    by (auto simp: nodeType_text)
  have e: "isElement c \<Longrightarrow> nodeType c \<noteq> ''text''" for c by (cases c) simp_all
  from Element show ?case
    by (auto simp: list_all_iff t tc e)
qed simp_all

lemma stableText_fixAttr:
  "fixAttr R url a x = Inr x' \<Longrightarrow> stableText P x \<Longrightarrow> stableText P x'"
  "fixAttrList R url a xs = Inr xs' \<Longrightarrow> list_all (stableChild P v) xs
     \<Longrightarrow> list_all (stableChild P v) xs'"
proof (induction R url a x and R url a xs arbitrary: x' and xs' v
    rule: fixAttr_fixAttrList.induct)
  case (1 R url a n as cs)
  from "1.prems" obtain as' cs' where as': "fixAttribs R url a as = Inr as'"
    and cs': "fixAttrList R url a cs = Inr cs'" and x': "x' = Element n as' cs'"
    by (auto split: sum.splits)
  let ?v = "if n = ''script'' \<or> n = ''style'' then 0 else Suc 0"
  from "1.prems"(2) have "list_all (stableChild P ?v) cs"
    by (auto simp: list_all_iff stableChild_def)
  from "1.IH"[OF as' cs' this] x' show ?case
    by (auto simp: list_all_iff stableChild_def)
next
  case (6 R url a x xs)
  from "6.prems" obtain y ys where y: "fixAttr R url a x = Inr y"
    and ys: "fixAttrList R url a xs = Inr ys" and xs': "xs' = y # ys"
    by (auto split: sum.splits)
  from "6.prems"(2) have x: "stableChild P v x" and xs: "list_all (stableChild P v) xs"
    by simp_all
  have "stableChild P v y"
  proof (cases "nodeType x = ''text''")
    case True
    then obtain t where "x = Text t" by (auto simp: nodeType_text)
    with y x show ?thesis by auto
  next
    case False
    with x have sx: "stableText P x" by (simp add: stableChild_def)
    from False y have "nodeType y \<noteq> ''text''" by (cases x) (auto split: sum.splits)
    with "6.IH"(1)[OF y sx] show ?thesis by (simp add: stableChild_def)
  qed
  with "6.IH"(2)[OF y ys xs] xs' show ?case by simp
qed auto

lemma stableChild_0: "stableChild P 0 = stableText P"
proof
  fix c show "stableChild P 0 c = stableText P c"
    by (cases c) (simp_all add: stableChild_def)
qed

lemma stableText_fixUrls:
  "fixUrls R url names doc = Inr doc' \<Longrightarrow> list_all (stableText P) doc
     \<Longrightarrow> list_all (stableText P) doc'"
proof (induction names arbitrary: doc)
  case Nil
  then show ?case by simp
next
  case (Cons a rest)
  from Cons.prems(1) obtain d1 where d1: "fixAttrList R url a doc = Inr d1"
    and r: "fixUrls R url rest d1 = Inr doc'"
    by (auto split: sum.splits)
  from Cons.prems(2) have "list_all (stableChild P 0) doc" by (simp add: stableChild_0)
  from stableText_fixAttr(2)[OF d1 this] have "list_all (stableText P) d1"
    by (simp add: stableChild_0)
  from Cons.IH[OF r this] show ?case .
qed

text \<open>
  Where the parser gives what the specification describes, the rewrite is
  \<open>plainRewrite\<close>.
\<close>

lemma ensureBase_plain: "parsesPlainly P url doc \<Longrightarrow> ensureBase P url doc = plainBase url doc"
  by (auto simp: parsesPlainly_def ensureBase_def plainBase_def)

lemma rewrite_plain:
  assumes "parsesPlainly P url doc"
  shows "rewrite P R url doc = plainRewrite R url doc"
proof -
  from assms have s: "P styleMarkup = styleBlock" and d: "list_all (stableText P) doc"
    by (simp_all add: parsesPlainly_def)
  note e = ensureBase_plain[OF assms]
  have "list_all (stableText P) (plainBase url doc)"
    using d by (auto simp: plainBase_def list_all_iff baseElement_def intro!: stableText_prependTo)
  then have m: "map (eachProcessNode P 0) doc2 = map rewriteText doc2"
    if "fixUrls R url urlAttributes (plainBase url doc) = Inr doc2" for doc2
    using stableText_fixUrls[OF that] by (simp add: eachProcessNode_map)
  show ?thesis
  proof (cases "fixUrls R url urlAttributes (plainBase url doc)")
    case (Inl m)
    then show ?thesis by (simp add: rewrite_def plainRewrite_def e)
  next
    case (Inr doc2)
    show ?thesis unfolding rewrite_def plainRewrite_def e s Inr sum.case m[OF Inr] ..
  qed
qed

text \<open>
  An element named \<open>script\<close> or \<open>style\<close> that holds no element, as the raw text
  elements of HTML do, comes out of the substitution pass as it went in.
\<close>

lemma raw_text_element_kept:
  assumes "n = ''script'' \<or> n = ''style''" and "list_all (\<lambda>c. \<not> isElement c) cs"
  shows "eachProcessNode P m (Element n as cs) = Element n as cs"
proof -
  have "eachContents P 0 cs = cs" using assms(2)
  proof (induction cs)
    case (Cons c cs)
    then show ?case by (cases c) simp_all
  qed simp
  with assms(1) show ?thesis by auto
qed

subsection \<open>Text nodes after the rewrite\<close>

















lemma examplePage_parsesPlainly:
  "parsesPlainly (parseFragment exampleServices) ''https://example.com'' examplePage"
  by code_simp






text \<open>
  C5. An element below a \<open>style\<close> element is in \<open>$('*')\<close> like any other, so
  \<open>processNode\<close> runs at it and rewrites its text: the text inside the \<open>style\<close> element of
  this page does not stay as it was.
\<close>

theorem style_subtree_rewritten:
  "rewrite (parseFragment exampleServices) (newURL exampleServices) ''https://example.com/'' svgPage = Inr
     ([Element ''html'' []
        [Element ''head'' []
           (Element ''base'' [(''href'', ''https://example.com/'')] [] # styleBlock),
         Element ''body'' []
           [Element ''svg'' [] [Element ''style'' [] [Element ''g'' [] [Text ''Fale'']]]]]],
      [])"
  by code_simp

subsection \<open>The URL pass\<close>

lemma absolutized_Nil: "absolutized R url [] e e"
  by (simp add: absolutized_def split: option.splits)

lemma absolutized_step:
  assumes "absolutized R url [a] e e1" and "absolutized R url rest e1 e'" and "a \<notin> set rest"
  shows "absolutized R url (a # rest) e e'"
  unfolding absolutized_def
proof (intro conjI allI)
  show "nodeName e' = nodeName e" using assms by (simp add: absolutized_def)
next
  fix k
  from assms(1) have s1: "case attr e k of
                None \<Rightarrow> attr e1 k = None
              | Some v \<Rightarrow>
                  if k \<in> set [a] \<and> v \<noteq> [] \<and> \<not> exempt v
                  then map_option Inr (attr e1 k) = Some (R v url)
                  else attr e1 k = Some v"
    unfolding absolutized_def by blast
  from assms(2) have s2: "case attr e1 k of
                None \<Rightarrow> attr e' k = None
              | Some v \<Rightarrow>
                  if k \<in> set rest \<and> v \<noteq> [] \<and> \<not> exempt v
                  then map_option Inr (attr e' k) = Some (R v url)
                  else attr e' k = Some v"
    unfolding absolutized_def by blast
  show "case attr e k of
                None \<Rightarrow> attr e' k = None
              | Some v \<Rightarrow>
                  if k \<in> set (a # rest) \<and> v \<noteq> [] \<and> \<not> exempt v
                  then map_option Inr (attr e' k) = Some (R v url)
                  else attr e' k = Some v"
    using s1 s2 assms(3) by (auto split: option.splits if_splits)
qed

lemma fixAttribs_lookup:
  assumes "fixAttribs R url a as = Inr as'"
  shows "case map_of as k of
           None \<Rightarrow> map_of as' k = None
         | Some v \<Rightarrow>
             if k \<in> set [a] \<and> v \<noteq> [] \<and> \<not> exempt v
             then map_option Inr (map_of as' k) = Some (R v url)
             else map_of as' k = Some v"
  using assms
  by (auto simp: fixAttribs_def update_conv' split: option.splits if_splits sum.splits)

lemma fixAttr_absolutized:
  "fixAttr R url a x = Inr x' \<Longrightarrow> list_all2 (absolutized R url [a]) (elements x) (elements x')"
  "fixAttrList R url a xs = Inr xs' \<Longrightarrow>
     list_all2 (absolutized R url [a]) (concat (map elements xs)) (concat (map elements xs'))"
proof (induction R url a x and R url a xs arbitrary: x' and xs' rule: fixAttr_fixAttrList.induct)
  case (1 R url a n as cs)
  from "1.prems" obtain as' cs' where as': "fixAttribs R url a as = Inr as'"
    and cs': "fixAttrList R url a cs = Inr cs'" and x': "x' = Element n as' cs'"
    by (auto split: sum.splits)
  have "absolutized R url [a] (Element n as cs) (Element n as' cs')"
    unfolding absolutized_def attr.simps nodeName.simps
    by (intro conjI allI refl fixAttribs_lookup[OF as'])
  moreover have "list_all2 (absolutized R url [a]) (concat (map elements cs)) (concat (map elements cs'))"
    using "1.IH"[OF as' cs'] .
  ultimately show ?case using x' by simp
next
  case (6 R url a x xs)
  from "6.prems" obtain y ys where y: "fixAttr R url a x = Inr y"
    and ys: "fixAttrList R url a xs = Inr ys" and xs': "xs' = y # ys"
    by (auto split: sum.splits)
  from "6.IH"(1)[OF y] "6.IH"(2)[OF y ys] xs' show ?case
    by (simp add: list_all2_appendI)
qed auto

lemma fixUrls_absolutized:
  "distinct names \<Longrightarrow> fixUrls R url names doc = Inr doc' \<Longrightarrow>
     list_all2 (absolutized R url names) (allElements doc) (allElements doc')"
proof (induction names arbitrary: doc)
  case Nil
  then show ?case by (simp add: list_all2_refl absolutized_Nil)
next
  case (Cons a rest)
  from Cons.prems(2) obtain d1 where d1: "fixAttrList R url a doc = Inr d1"
    and r: "fixUrls R url rest d1 = Inr doc'"
    by (auto split: sum.splits)
  have one: "list_all2 (absolutized R url [a]) (allElements doc) (allElements d1)"
    unfolding allElements_def by (rule fixAttr_absolutized(2)[OF d1])
  have two: "list_all2 (absolutized R url rest) (allElements d1) (allElements doc')"
    using Cons.IH[OF _ r] Cons.prems(1) by simp
  show ?case
    by (rule list_all2_trans[OF _ one two]) (use Cons.prems(1) in \<open>auto intro: absolutized_step\<close>)
qed

text \<open>
  C2 (as amended). After the URL pass every element has its tag name and attributes as
  before, except that the value of \<open>src\<close>, \<open>href\<close>, \<open>action\<close> or \<open>data-src\<close> is replaced
  by its resolution against the source URL when it is non-empty and starts with none of
  \<open>http\<close>, \<open>//\<close>, \<open>#\<close>, \<open>javascript:\<close>, \<open>data:\<close>. The document may hold a \<open>base\<close> element or
  not: the resolution is against \<open>url\<close> in both cases.
\<close>

theorem relative_urls_absolutized:
  assumes "fixUrls R url urlAttributes doc = Inr doc'"
  shows "list_all2 (absolutized R url urlAttributes) (allElements doc) (allElements doc')"
  using assms by (intro fixUrls_absolutized) (simp_all add: urlAttributes_def)

lemma relativePage_fixed:
  "fixUrls (newURL exampleServices) ''https://example.com'' urlAttributes relativePage = Inr
     [Element ''html'' []
        [Element ''head'' [] [Element ''title'' [] [Text ''Test Page'']],
         Element ''body'' []
           [Element ''img'' [(''src'', ''https://example.com/images/photo.jpg'')] [],
            Element ''a'' [(''href'', ''https://example.com/about'')] [Text ''About''],
            Element ''form'' [(''action'', ''https://example.com/submit'')] [],
            Element ''div'' [(''data-src'', ''https://example.com/data.json'')] [],
            Element ''a'' [(''href'', ''#section'')] [Text ''Section''],
            Element ''img'' [(''src'', ''//cdn.example.com/image.jpg'')] []]]]"
  by code_simp

theorem relative_urls_absolutized_witness:
  "fixUrls (newURL exampleServices) ''https://example.com'' urlAttributes relativePage = Inr
     [Element ''html'' []
        [Element ''head'' [] [Element ''title'' [] [Text ''Test Page'']],
         Element ''body'' []
           [Element ''img'' [(''src'', ''https://example.com/images/photo.jpg'')] [],
            Element ''a'' [(''href'', ''https://example.com/about'')] [Text ''About''],
            Element ''form'' [(''action'', ''https://example.com/submit'')] [],
            Element ''div'' [(''data-src'', ''https://example.com/data.json'')] [],
            Element ''a'' [(''href'', ''#section'')] [Text ''Section''],
            Element ''img'' [(''src'', ''//cdn.example.com/image.jpg'')] []]]]
   \<and> list_all2 (absolutized (newURL exampleServices) ''https://example.com'' urlAttributes)
       (allElements relativePage)
       (allElements
         [Element ''html'' []
            [Element ''head'' [] [Element ''title'' [] [Text ''Test Page'']],
             Element ''body'' []
               [Element ''img'' [(''src'', ''https://example.com/images/photo.jpg'')] [],
                Element ''a'' [(''href'', ''https://example.com/about'')] [Text ''About''],
                Element ''form'' [(''action'', ''https://example.com/submit'')] [],
                Element ''div'' [(''data-src'', ''https://example.com/data.json'')] [],
                Element ''a'' [(''href'', ''#section'')] [Text ''Section''],
                Element ''img'' [(''src'', ''//cdn.example.com/image.jpg'')] []]]])"
  using relative_urls_absolutized[OF relativePage_fixed] relativePage_fixed by blast

text \<open>
  The claim as it stands fails at an empty value: it starts with none of the five
  prefixes and has a resolution, and line 63 leaves it as it is.
\<close>

theorem empty_value_kept:
  "fixUrls (newURL exampleServices) ''https://example.com/'' urlAttributes
       [Element ''a'' [(''href'', [])] [Text ''top'']]
     = Inr [Element ''a'' [(''href'', [])] [Text ''top'']]
   \<and> \<not> exempt []
   \<and> newURL exampleServices [] ''https://example.com/'' = Inr ''https://example.com/''"
  by code_simp

subsection \<open>The structure of the document\<close>

lemma fixAttribs_keys:
  assumes "fixAttribs R url a as = Inr as'"
  shows "map (\<lambda>(k, v). (k, [])) as' = map (\<lambda>(k, v). (k, [])) as"
proof -
  have "map (\<lambda>(k, v). (k, [])) (AList.update a h as) = map (\<lambda>(k, v). (k, [])) as"
    if "map_of as a = Some v" for h v
    using that by (induction as) (auto split: if_splits)
  with assms show ?thesis
    by (auto simp: fixAttribs_def split: option.splits if_splits sum.splits)
qed

lemma outline_fixAttr:
  "fixAttr R url a x = Inr x' \<Longrightarrow> outline hide x' = outline hide x"
  "fixAttrList R url a xs = Inr xs' \<Longrightarrow> map (outline hide) xs' = map (outline hide) xs"
proof (induction R url a x and R url a xs arbitrary: x' and xs' rule: fixAttr_fixAttrList.induct)
  case (1 R url a n as cs)
  from "1.prems" obtain as' cs' where as': "fixAttribs R url a as = Inr as'"
    and cs': "fixAttrList R url a cs = Inr cs'" and x': "x' = Element n as' cs'"
    by (auto split: sum.splits)
  from "1.IH"[OF as' cs'] fixAttribs_keys[OF as'] x' show ?case by simp
next
  case (6 R url a x xs)
  from "6.prems" obtain y ys where y: "fixAttr R url a x = Inr y"
    and ys: "fixAttrList R url a xs = Inr ys" and xs': "xs' = y # ys"
    by (auto split: sum.splits)
  from "6.IH"(1)[OF y] "6.IH"(2)[OF y ys] xs' show ?case by simp
qed auto

lemma outline_fixUrls:
  "fixUrls R url names doc = Inr doc' \<Longrightarrow> map (outline hide) doc' = map (outline hide) doc"
proof (induction names arbitrary: doc)
  case Nil
  then show ?case by simp
next
  case (Cons a rest)
  from Cons.prems obtain d1 where d1: "fixAttrList R url a doc = Inr d1"
    and r: "fixUrls R url rest d1 = Inr doc'"
    by (auto split: sum.splits)
  from Cons.IH[OF r] outline_fixAttr(2)[OF d1] show ?case by simp
qed

lemma outline_rewriteText: "outline hide (rewriteText x) = outline hide x"
proof (induction x)
  case (Element n as cs)
  have "outline hide (if nodeType c = ''text'' \<and> n \<noteq> ''script'' \<and> n \<noteq> ''style''
                 then Text (substitute (textContent c)) else rewriteText c) = outline hide c"
    if "c \<in> set cs" for c
    using Element.IH[OF that] by (auto simp: nodeType_text)
  then show ?case by simp
qed simp_all

lemma outline_setText: "t \<in> set hide \<Longrightarrow> outline hide (setText t s x) = outline hide x"
  by (induction x) auto

lemma outline_appendTo:
  "h \<notin> set hide \<Longrightarrow>
     outline hide (appendTo h new x) = appendTo h (map (outline hide) new) (outline hide x)"
  by (induction x) auto

lemma plain_structure:
  assumes "plainRewrite R url doc = Inr (doc', title)"
  shows "map (outline [''title'']) doc'
       = map (outline [''title'']) (map (appendTo ''head'' styleBlock) (plainBase url doc))"
proof -
  from assms obtain doc2 where d2: "fixUrls R url urlAttributes (plainBase url doc) = Inr doc2"
    and d: "doc' = map (appendTo ''head'' styleBlock)
                  (map (setText ''title'' title) (map rewriteText doc2))"
    by (auto simp: plainRewrite_def Let_def split: sum.splits)
  have "map (outline [''title'']) doc'
      = map (appendTo ''head'' (map (outline [''title'']) styleBlock)) (map (outline [''title'']) doc2)"
    unfolding d by (simp add: outline_appendTo outline_setText outline_rewriteText)
  also have "\<dots> = map (appendTo ''head'' (map (outline [''title'']) styleBlock))
       (map (outline [''title'']) (plainBase url doc))"
    by (simp only: outline_fixUrls[OF d2])
  also have "\<dots> = map (outline [''title'']) (map (appendTo ''head'' styleBlock) (plainBase url doc))"
    by (simp add: outline_appendTo)
  finally show ?thesis .
qed

lemma injected_both:
  "map (appendTo ''head'' back) front = front \<Longrightarrow>
     appendTo ''head'' back (prependTo ''head'' front x) = injected front back x"
  by (induction x) simp_all

lemma injected_back: "appendTo ''head'' back x = injected [] back x"
  by (induction x) simp_all

lemma injected_plainBase:
  "map (appendTo ''head'' styleBlock) (plainBase url doc)
     = map (injected (if hasBaseHref doc then [] else [baseElement url]) styleBlock) doc"
proof (cases "hasBaseHref doc")
  case True
  then show ?thesis by (simp add: plainBase_def injected_back)
next
  case False
  have "map (appendTo ''head'' styleBlock) [baseElement url] = [baseElement url]"
    by (simp add: baseElement_def)
  from injected_both[OF this] False show ?thesis by (simp add: plainBase_def)
qed

text \<open>
  C9 (as amended). On a document and a URL for which the parser gives what the
  specification describes, when the rewrite succeeds, its result has the structure of the
  input in which every \<open>head\<close> has got the style block after its children and, where the
  first \<open>base\<close> element of the input has no \<open>href\<close> or there is none, one \<open>base\<close> element
  before them: the two trees are the same up to the content of text nodes, the values
  of attributes, and the children of \<open>title\<close> elements.
\<close>

theorem structure_preserved:
  assumes "parsesPlainly P url doc" and "rewrite P R url doc = Inr (doc', title)"
  shows "map (outline [''title'']) doc'
       = map (outline [''title''])
           (map (injected (if hasBaseHref doc then [] else [baseElement url]) styleBlock) doc)"
proof -
  from assms have "plainRewrite R url doc = Inr (doc', title)" by (simp add: rewrite_plain)
  from plain_structure[OF this] show ?thesis by (simp only: injected_plainBase)
qed

lemma examplePage_no_base: "\<not> hasBaseHref examplePage"
  by code_simp

theorem structure_preserved_witness:
  "parsesPlainly (parseFragment exampleServices) ''https://example.com'' examplePage
   \<and> rewrite (parseFragment exampleServices) (newURL exampleServices) ''https://example.com'' examplePage = Inr
     ([Element ''html'' []
        [Element ''head'' []
          ([Element ''base'' [(''href'', ''https://example.com'')] [],
            Element ''title'' [] [Text ''Fale Test'']] @ styleBlock),
         Element ''body'' [] [Element ''p'' [] [Text ''Welcome to Fale'']]]],
      ''Fale Test'')
   \<and> map (outline [''title''])
       [Element ''html'' []
          [Element ''head'' []
            ([Element ''base'' [(''href'', ''https://example.com'')] [],
              Element ''title'' [] [Text ''Fale Test'']] @ styleBlock),
           Element ''body'' [] [Element ''p'' [] [Text ''Welcome to Fale'']]]]
     = map (outline [''title''])
         (map (injected [baseElement ''https://example.com''] styleBlock) examplePage)"
  using structure_preserved[OF examplePage_parsesPlainly example_rewrite]
    examplePage_parsesPlainly example_rewrite examplePage_no_base by simp

text \<open>
  The claim as it stands fails at a \<open>title\<close> element with an element below it: line 102
  replaces the children of every \<open>title\<close> by one text node, the combined text of all
  \<open>title\<close> elements. Here the \<open>tspan\<close> element is gone from the result. It also fails
  where a replaced text shows markup, which the library parses: the raw text of this
  \<open>noscript\<close> element becomes a \<open>p\<close> element.
\<close>

lemma titlePage_rewrite:
  "rewrite (parseFragment exampleServices) (newURL exampleServices) ''https://example.com/'' titlePage = Inr
     ([Element ''html'' []
        [Element ''head'' []
          ([Element ''base'' [(''href'', ''https://example.com/'')] [],
            Element ''title'' [] [Text ''Fale HomeFale logo'']] @ styleBlock),
         Element ''body'' []
           [Element ''svg'' [] [Element ''title'' [] [Text ''Fale HomeFale logo'']]]]],
      ''Fale HomeFale logo'')"
  by code_simp

lemma noscriptPage_rewrite:
  "rewrite (parseFragment exampleServices) (newURL exampleServices) ''https://example.com/'' noscriptPage = Inr
     ([Element ''html'' []
        [Element ''head'' []
           (Element ''base'' [(''href'', ''https://example.com/'')] [] # styleBlock),
         Element ''body'' [] [Element ''noscript'' [] [Element ''p'' [] [Text ''Fale'']]]]],
      [])"
  by code_simp

theorem title_children_replaced:
  "rewrite (parseFragment exampleServices) (newURL exampleServices) ''https://example.com/'' titlePage = Inr
     ([Element ''html'' []
        [Element ''head'' []
          ([Element ''base'' [(''href'', ''https://example.com/'')] [],
            Element ''title'' [] [Text ''Fale HomeFale logo'']] @ styleBlock),
         Element ''body'' []
           [Element ''svg'' [] [Element ''title'' [] [Text ''Fale HomeFale logo'']]]]],
      ''Fale HomeFale logo'')
   \<and> map (outline [])
       [Element ''html'' []
          [Element ''head'' []
            ([Element ''base'' [(''href'', ''https://example.com/'')] [],
              Element ''title'' [] [Text ''Fale HomeFale logo'']] @ styleBlock),
           Element ''body'' []
             [Element ''svg'' [] [Element ''title'' [] [Text ''Fale HomeFale logo'']]]]]
     \<noteq> map (outline [])
         (map (injected [baseElement ''https://example.com/''] styleBlock) titlePage)
   \<and> rewrite (parseFragment exampleServices) (newURL exampleServices) ''https://example.com/'' noscriptPage = Inr
     ([Element ''html'' []
        [Element ''head'' []
           (Element ''base'' [(''href'', ''https://example.com/'')] [] # styleBlock),
         Element ''body'' [] [Element ''noscript'' [] [Element ''p'' [] [Text ''Fale'']]]]],
      [])
   \<and> map (outline [''title''])
       [Element ''html'' []
          [Element ''head'' []
             (Element ''base'' [(''href'', ''https://example.com/'')] [] # styleBlock),
           Element ''body'' [] [Element ''noscript'' [] [Element ''p'' [] [Text ''Fale'']]]]]
     \<noteq> map (outline [''title''])
         (map (injected [baseElement ''https://example.com/''] styleBlock) noscriptPage)"
proof -
  have "map (outline [])
       [Element ''html'' []
          [Element ''head'' []
            ([Element ''base'' [(''href'', ''https://example.com/'')] [],
              Element ''title'' [] [Text ''Fale HomeFale logo'']] @ styleBlock),
           Element ''body'' []
             [Element ''svg'' [] [Element ''title'' [] [Text ''Fale HomeFale logo'']]]]]
     \<noteq> map (outline [])
         (map (injected [baseElement ''https://example.com/''] styleBlock) titlePage)"
    by (simp add: titlePage_def baseElement_def)
  moreover have "map (outline [''title''])
       [Element ''html'' []
          [Element ''head'' []
             (Element ''base'' [(''href'', ''https://example.com/'')] [] # styleBlock),
           Element ''body'' [] [Element ''noscript'' [] [Element ''p'' [] [Text ''Fale'']]]]]
     \<noteq> map (outline [''title''])
         (map (injected [baseElement ''https://example.com/''] styleBlock) noscriptPage)"
    by (simp add: noscriptPage_def baseElement_def)
  ultimately show ?thesis using titlePage_rewrite noscriptPage_rewrite by simp
qed

subsection \<open>Selected elements through the rewrite\<close>

lemma titledBasePage_rewrite:
  "rewrite (parseFragment exampleServices) (newURL exampleServices) ''https://example.com'' titledBasePage = Inr
     ([Element ''html'' []
        [Element ''head'' [] styleBlock,
         Element ''body'' [] [Element ''svg'' [] [Element ''title'' [] [Text []]]]]],
      [])"
  by code_simp

lemma titledBasePage_hasBaseHref: "hasBaseHref titledBasePage"
  by code_simp

lemma targetBasePage_rewrite:
  "rewrite (parseFragment exampleServices) (newURL exampleServices) ''https://example.com'' targetBasePage = Inr
     ([Element ''html'' []
        [Element ''head'' []
           ([Element ''base'' [(''href'', ''https://example.com'')] [],
             Element ''base'' [(''target'', ''_blank'')] [],
             Element ''base'' [(''href'', ''https://existing-base.com/subdirectory/'')] []]
            @ styleBlock),
         Element ''body'' [] []]],
      [])"
  by code_simp

lemma related_Nil: "related R url [] e e"
  by (simp add: related_def absolutized_Nil split: option.splits)

lemma related_step:
  assumes "related R url [a] e e1" and "related R url rest e1 e'" and "a \<notin> set rest"
  shows "related R url (a # rest) e e'"
proof -
  have abs: "absolutized R url (a # rest) e e'"
    using assms by (auto simp: related_def intro: absolutized_step)
  show ?thesis
  proof (cases "firstChild e")
    case None
    with abs show ?thesis by (simp add: related_def)
  next
    case (Some c)
    with assms(1) obtain c1 where c1: "firstChild e1 = Some c1" "absolutized R url [a] c c1"
      by (auto simp: related_def split: option.splits)
    with assms(2) obtain c' where c': "firstChild e' = Some c'" "absolutized R url rest c1 c'"
      by (auto simp: related_def split: option.splits)
    from absolutized_step[OF c1(2) c'(2) assms(3)] abs Some c'(1) show ?thesis
      by (simp add: related_def)
  qed
qed

lemma absolutized_plain: "\<not> isElement x \<Longrightarrow> absolutized R url names x x"
  by (cases x) (simp_all add: absolutized_def)

lemma fixAttr_related:
  "fixAttr R url a x = Inr x' \<Longrightarrow>
     absolutized R url [a] x x' \<and> list_all2 (related R url [a]) (select t x) (select t x')"
  "fixAttrList R url a xs = Inr xs' \<Longrightarrow>
     list_all2 (absolutized R url [a]) xs xs'
     \<and> list_all2 (related R url [a]) (concat (map (select t) xs)) (concat (map (select t) xs'))"
proof (induction R url a x and R url a xs arbitrary: x' and xs' rule: fixAttr_fixAttrList.induct)
  case (1 R url a n as cs)
  from "1.prems" obtain as' cs' where as': "fixAttribs R url a as = Inr as'"
    and cs': "fixAttrList R url a cs = Inr cs'" and x': "x' = Element n as' cs'"
    by (auto split: sum.splits)
  have abs: "absolutized R url [a] (Element n as cs) (Element n as' cs')"
    unfolding absolutized_def attr.simps nodeName.simps
    by (intro conjI allI refl fixAttribs_lookup[OF as'])
  from "1.IH"[OF as' cs'] have kids: "list_all2 (absolutized R url [a]) cs cs'"
    and sel: "list_all2 (related R url [a]) (concat (map (select t) cs)) (concat (map (select t) cs'))"
    by simp_all
  have rel: "related R url [a] (Element n as cs) (Element n as' cs')"
    using abs kids by (cases cs; cases cs') (simp_all add: related_def)
  from abs rel sel x' show ?case by (auto intro: list_all2_appendI)
next
  case (6 R url a x xs)
  from "6.prems" obtain y ys where y: "fixAttr R url a x = Inr y"
    and ys: "fixAttrList R url a xs = Inr ys" and xs': "xs' = y # ys"
    by (auto split: sum.splits)
  from "6.IH"(1)[OF y] "6.IH"(2)[OF y ys] xs' show ?case
    by (simp add: list_all2_appendI)
qed (auto simp: absolutized_plain)

lemma fixUrls_related:
  "distinct names \<Longrightarrow> fixUrls R url names doc = Inr doc' \<Longrightarrow>
     list_all2 (related R url names) (selectAll t doc) (selectAll t doc')"
proof (induction names arbitrary: doc)
  case Nil
  then show ?case by (simp add: list_all2_refl related_Nil)
next
  case (Cons a rest)
  from Cons.prems(2) obtain d1 where d1: "fixAttrList R url a doc = Inr d1"
    and r: "fixUrls R url rest d1 = Inr doc'"
    by (auto split: sum.splits)
  have one: "list_all2 (related R url [a]) (selectAll t doc) (selectAll t d1)"
    unfolding selectAll_def using fixAttr_related(2)[OF d1] by simp
  have two: "list_all2 (related R url rest) (selectAll t d1) (selectAll t doc')"
    using Cons.IH[OF _ r] Cons.prems(1) by simp
  show ?case
    by (rule list_all2_trans[OF _ one two]) (use Cons.prems(1) in \<open>auto intro: related_step\<close>)
qed

lemma kept_Text: "kept (Text t) (Text t')"
  by (simp add: kept_def)

lemma kept_attr: "kept x y \<Longrightarrow> attr y = attr x"
  by (rule ext) (simp add: kept_def)

lemma kept_name: "kept x y \<Longrightarrow> nodeName y = nodeName x"
  by (simp add: kept_def)

lemma kept_Element: "kept (Element n as cs) (Element n as cs')"
  by (simp add: kept_def)

lemma absolutized_kept:
  assumes "absolutized R url names e e'" and "kept e' e''"
  shows "absolutized R url names e e''"
proof -
  have a: "attr e'' = attr e'" and n: "nodeName e'' = nodeName e'"
    using assms(2) by (rule kept_attr, rule kept_name)
  from assms(1) show ?thesis unfolding absolutized_def a n .
qed

lemma related_keptFirst:
  "related R url names e e' \<Longrightarrow> keptFirst e' e'' \<Longrightarrow> related R url names e e''"
  by (auto simp: related_def keptFirst_def intro: absolutized_kept split: option.splits)

lemma kept_rewriteText: "kept x (rewriteText x)"
  by (cases x) (simp_all add: kept_def)

lemma kept_setText: "kept x (setText t s x)"
  by (cases x) (simp_all add: kept_def)

lemma kept_appendTo: "kept x (appendTo h new x)"
  by (cases x) (simp_all add: kept_def)

lemma keptFirst_rewriteText: "keptFirst x (rewriteText x)"
proof (cases x)
  case (Element n as cs)
  then show ?thesis
    by (cases cs) (auto simp: keptFirst_def kept_rewriteText nodeType_text kept_Text kept_Element)
qed (simp_all add: keptFirst_def kept_def)

lemma keptFirst_setText: "nodeName x \<noteq> Some t \<Longrightarrow> keptFirst x (setText t s x)"
proof (cases x)
  case (Element n as cs)
  assume "nodeName x \<noteq> Some t"
  with Element show ?thesis
    by (cases cs) (auto simp: keptFirst_def kept_setText kept_Element)
qed (simp_all add: keptFirst_def kept_def)

lemma keptFirst_appendTo: "keptFirst x (appendTo h new x)"
proof (cases x)
  case (Element n as cs)
  then show ?thesis
    by (cases cs) (auto simp: keptFirst_def kept_appendTo kept_Element split: option.splits)
qed (simp_all add: keptFirst_def kept_def)

lemma select_name: "e \<in> set (select t x) \<Longrightarrow> nodeName e = Some t"
  by (induction x) (auto split: if_splits)

lemma select_plain: "\<not> isElement x \<Longrightarrow> select t x = []"
  by (cases x) simp_all

lemma select_rewriteText: "select t (rewriteText x) = map rewriteText (select t x)"
proof (induction x)
  case (Element n as cs)
  have "select t (if nodeType c = ''text'' \<and> n \<noteq> ''script'' \<and> n \<noteq> ''style''
                 then Text (substitute (textContent c)) else rewriteText c)
        = map rewriteText (select t c)" if "c \<in> set cs" for c
    using Element.IH[OF that] by (auto simp: nodeType_text)
  then have "concat (map (\<lambda>c. select t (if nodeType c = ''text'' \<and> n \<noteq> ''script'' \<and> n \<noteq> ''style''
                 then Text (substitute (textContent c)) else rewriteText c)) cs)
      = concat (map (\<lambda>c. map rewriteText (select t c)) cs)"
    by (intro arg_cong[where f = concat] map_cong refl)
  then show ?case by (simp add: map_concat comp_def)
qed simp_all

lemma select_setText:
  "plainTitles x \<Longrightarrow> t \<noteq> ''title'' \<Longrightarrow>
     select t (setText ''title'' s x) = map (setText ''title'' s) (select t x)"
proof (induction x)
  case (Element n as cs)
  show ?case
  proof (cases "n = ''title''")
    case True
    with Element.prems have "select t c = []" if "c \<in> set cs" for c
      using that by (auto simp: list_all_iff select_plain)
    then have "concat (map (select t) cs) = []" by simp
    with True Element.prems(2) show ?thesis by simp
  next
    case False
    with Element.prems have "plainTitles c" if "c \<in> set cs" for c
      using that by (auto simp: list_all_iff)
    then have "concat (map (\<lambda>c. select t (setText ''title'' s c)) cs)
      = concat (map (\<lambda>c. map (setText ''title'' s) (select t c)) cs)"
      using Element.IH Element.prems(2) by (intro arg_cong[where f = concat] map_cong refl) auto
    with False show ?thesis by (simp add: map_concat comp_def)
  qed
qed simp_all

lemma select_appendTo:
  "concat (map (select t) new) = [] \<Longrightarrow>
     select t (appendTo h new x) = map (appendTo h new) (select t x)"
proof (induction x)
  case (Element n as cs)
  have "concat (map (\<lambda>c. select t (appendTo h new c)) cs)
      = concat (map (\<lambda>c. map (appendTo h new) (select t c)) cs)"
    using Element by (intro arg_cong[where f = concat] map_cong refl) auto
  with Element.prems show ?case by (simp add: map_concat comp_def)
qed simp_all




lemma plainTitles_prependTo:
  "plainTitles x \<Longrightarrow> list_all plainTitles new \<Longrightarrow> h \<noteq> ''title'' \<Longrightarrow> plainTitles (prependTo h new x)"
proof (induction x)
  case (Element n as cs)
  show ?case
  proof (cases "n = ''title''")
    case True
    have "isElement (prependTo h new c) = isElement c" for c by (cases c) simp_all
    with True Element.prems show ?thesis by (auto simp: list_all_iff)
  next
    case False
    with Element show ?thesis by (auto simp: list_all_iff)
  qed
qed simp_all

lemma absolutized_isElement: "absolutized R url names x x' \<Longrightarrow> isElement x' = isElement x"
  by (cases x; cases x') (simp_all add: absolutized_def)

lemma plainTitles_fixAttr:
  "fixAttr R url a x = Inr x' \<Longrightarrow> plainTitles x \<Longrightarrow> plainTitles x'"
  "fixAttrList R url a xs = Inr xs' \<Longrightarrow> list_all plainTitles xs \<Longrightarrow> list_all plainTitles xs'"
proof (induction R url a x and R url a xs arbitrary: x' and xs' rule: fixAttr_fixAttrList.induct)
  case (1 R url a n as cs)
  from "1.prems" obtain as' cs' where as': "fixAttribs R url a as = Inr as'"
    and cs': "fixAttrList R url a cs = Inr cs'" and x': "x' = Element n as' cs'"
    by (auto split: sum.splits)
  show ?case
  proof (cases "n = ''title''")
    case True
    have "list_all2 (absolutized R url [a]) cs cs'"
      using fixAttr_related(2)[OF cs'] by simp
    then have "list_all2 (\<lambda>c c'. isElement c' = isElement c) cs cs'"
      by (rule list_all2_mono) (rule absolutized_isElement)
    moreover from "1.prems"(2) True have "list_all (\<lambda>c. \<not> isElement c) cs" by simp
    ultimately have "list_all (\<lambda>c. \<not> isElement c) cs'"
      by (induction cs cs' rule: list_all2_induct) auto
    with True x' show ?thesis by simp
  next
    case False
    with "1.prems"(2) have "list_all plainTitles cs" by simp
    from "1.IH"[OF as' cs' this] False x' show ?thesis by simp
  qed
next
  case (6 R url a x xs)
  from "6.prems" obtain y ys where y: "fixAttr R url a x = Inr y"
    and ys: "fixAttrList R url a xs = Inr ys" and xs': "xs' = y # ys"
    by (auto split: sum.splits)
  from "6.IH"(1)[OF y] "6.IH"(2)[OF y ys] "6.prems"(2) xs' show ?case by simp
qed auto

lemma plainTitles_fixUrls:
  "fixUrls R url names doc = Inr doc' \<Longrightarrow> list_all plainTitles doc \<Longrightarrow> list_all plainTitles doc'"
proof (induction names arbitrary: doc)
  case Nil
  then show ?case by simp
next
  case (Cons a rest)
  from Cons.prems(1) obtain d1 where d1: "fixAttrList R url a doc = Inr d1"
    and r: "fixUrls R url rest d1 = Inr doc'"
    by (auto split: sum.splits)
  from Cons.IH[OF r plainTitles_fixAttr(2)[OF d1 Cons.prems(2)]] show ?case .
qed

lemma plainTitles_rewriteText: "plainTitles x \<Longrightarrow> plainTitles (rewriteText x)"
proof (induction x)
  case (Element n as cs)
  let ?g = "\<lambda>c. if nodeType c = ''text'' \<and> n \<noteq> ''script'' \<and> n \<noteq> ''style''
                 then Text (substitute (textContent c)) else rewriteText c"
  have el: "isElement (rewriteText c) = isElement c" for c by (cases c) auto
  show ?case
  proof (cases "n = ''title''")
    case True
    with Element.prems show ?thesis by (auto simp: list_all_iff el)
  next
    case False
    have "plainTitles (rewriteText c)" if "c \<in> set cs" for c
      using Element.IH[OF that] Element.prems False that by (auto simp: list_all_iff)
    with False show ?thesis by (auto simp: list_all_iff)
  qed
qed simp_all

lemma selectAll_map:
  "(\<And>x. x \<in> set doc \<Longrightarrow> select t (P x) = map P (select t x)) \<Longrightarrow>
     selectAll t (map P doc) = map P (selectAll t doc)"
  unfolding selectAll_def by (induction doc) (simp_all add: map_concat)

lemma selectAll_name: "e \<in> set (selectAll t doc) \<Longrightarrow> nodeName e = Some t"
  by (auto simp: selectAll_def dest: select_name)

lemma nodeName_rewriteText: "nodeName (rewriteText x) = nodeName x"
  by (cases x) simp_all

lemma plainTitles_plainBase:
  "list_all plainTitles doc \<Longrightarrow> list_all plainTitles (plainBase url doc)"
  by (auto simp: plainBase_def list_all_iff baseElement_def intro!: plainTitles_prependTo)

lemma selected_related:
  assumes rw: "plainRewrite R url doc = Inr (doc', title)"
    and pl: "list_all plainTitles doc"
    and t: "t \<noteq> ''title''" "selectAll t styleBlock = []"
  shows "list_all2 (related R url urlAttributes) (selectAll t (plainBase url doc)) (selectAll t doc')"
proof -
  let ?T = rewriteText and ?S = "setText ''title'' title" and ?A = "appendTo ''head'' styleBlock"
  from rw obtain doc2 where d2: "fixUrls R url urlAttributes (plainBase url doc) = Inr doc2"
    and d: "doc' = map ?A (map ?S (map ?T doc2))"
    by (auto simp: plainRewrite_def Let_def split: sum.splits)
  have pl2: "list_all plainTitles doc2"
    using plainTitles_fixUrls[OF d2 plainTitles_plainBase[OF pl]] .
  then have pl3: "list_all plainTitles (map ?T doc2)"
    by (simp add: list_all_iff plainTitles_rewriteText)
  have s3: "selectAll t (map ?T doc2) = map ?T (selectAll t doc2)"
    by (rule selectAll_map) (rule select_rewriteText)
  have s4: "selectAll t (map ?S (map ?T doc2)) = map ?S (selectAll t (map ?T doc2))"
    using pl3 t(1) by (intro selectAll_map select_setText) (auto simp: list_all_iff)
  have s5: "selectAll t doc' = map ?A (selectAll t (map ?S (map ?T doc2)))"
    unfolding d using t(2) by (intro selectAll_map select_appendTo) (simp add: selectAll_def)
  have sel: "selectAll t doc' = map (\<lambda>y. ?A (?S (?T y))) (selectAll t doc2)"
    unfolding s5 s4 s3 by simp
  have rel: "list_all2 (related R url urlAttributes) (selectAll t (plainBase url doc)) (selectAll t doc2)"
    by (rule fixUrls_related[OF _ d2]) (simp add: urlAttributes_def)
  have "list_all2 (\<lambda>x y. related R url urlAttributes x (?A (?S (?T y))))
          (selectAll t (plainBase url doc)) (selectAll t doc2)"
  proof (rule list.rel_mono_strong[OF rel])
    fix x y
    assume y: "y \<in> set (selectAll t doc2)" and r: "related R url urlAttributes x y"
    have "nodeName (?T y) \<noteq> Some ''title''"
      using selectAll_name[OF y] t(1) by (simp add: nodeName_rewriteText)
    then have "keptFirst (?T y) (?S (?T y))" by (rule keptFirst_setText)
    from related_keptFirst[OF related_keptFirst[OF related_keptFirst[OF r keptFirst_rewriteText] this]
        keptFirst_appendTo]
    show "related R url urlAttributes x (?A (?S (?T y)))" .
  qed
  then show ?thesis by (simp add: sel list_all2_map2)
qed

lemma related_absolutized: "related R url names e e' \<Longrightarrow> absolutized R url names e e'"
  by (simp add: related_def)

lemma plainBase_existing: "hasBaseHref doc \<Longrightarrow> plainBase url doc = doc"
  by (simp add: plainBase_def)

lemma styleBlock_no_base: "selectAll ''base'' styleBlock = []"
  by (simp add: selectAll_def styleBlock_def)


subsection \<open>The base tag\<close>

lemma length_select_setText:
  "t \<noteq> ''title'' \<Longrightarrow> length (select t (setText ''title'' s x)) \<le> length (select t x)"
proof (induction x)
  case (Element n as cs)
  show ?case
  proof (cases "n = ''title''")
    case True
    with Element.prems show ?thesis by simp
  next
    case False
    have "sum_list (map (\<lambda>c. length (select t (setText ''title'' s c))) cs)
        \<le> sum_list (map (\<lambda>c. length (select t c)) cs)"
      by (rule sum_list_mono) (rule Element.IH[OF _ Element.prems])
    with False show ?thesis by (simp add: length_concat comp_def)
  qed
qed simp_all

lemma length_selectAll_setText:
  "t \<noteq> ''title'' \<Longrightarrow>
     length (selectAll t (map (setText ''title'' s) doc)) \<le> length (selectAll t doc)"
  unfolding selectAll_def length_concat map_map comp_def
  by (rule sum_list_mono) (rule length_select_setText)

text \<open>
  The rest of the rewrite adds no \<open>base\<close> element to those that the document has after
  lines 48--56.
\<close>

lemma plain_base_count:
  assumes "plainRewrite R url doc = Inr (doc', title)"
  shows "length (selectAll ''base'' doc') \<le> length (selectAll ''base'' (plainBase url doc))"
proof -
  from assms obtain doc2 where d2: "fixUrls R url urlAttributes (plainBase url doc) = Inr doc2"
    and d: "doc' = map (appendTo ''head'' styleBlock)
                  (map (setText ''title'' title) (map rewriteText doc2))"
    by (auto simp: plainRewrite_def Let_def split: sum.splits)
  have "concat (map (select ''base'') styleBlock) = []"
    using styleBlock_no_base by (simp add: selectAll_def)
  then have "selectAll ''base'' doc'
      = map (appendTo ''head'' styleBlock)
          (selectAll ''base'' (map (setText ''title'' title) (map rewriteText doc2)))"
    unfolding d by (intro selectAll_map select_appendTo)
  then have "length (selectAll ''base'' doc')
      = length (selectAll ''base'' (map (setText ''title'' title) (map rewriteText doc2)))"
    by simp
  also have "\<dots> \<le> length (selectAll ''base'' (map rewriteText doc2))"
    by (rule length_selectAll_setText) simp
  also have "selectAll ''base'' (map rewriteText doc2) = map rewriteText (selectAll ''base'' doc2)"
    by (intro selectAll_map select_rewriteText)
  also have "length (map rewriteText (selectAll ''base'' doc2)) = length (selectAll ''base'' doc2)"
    by simp
  also have "\<dots> = length (selectAll ''base'' (plainBase url doc))"
    using fixUrls_related[OF _ d2, of "''base''"]
    by (simp add: urlAttributes_def list_all2_lengthD)
  finally show ?thesis .
qed

lemma plain_existing_bases:
  assumes "hasBaseHref doc" and "plainRewrite R url doc = Inr (doc', title)"
    and "list_all plainTitles doc"
  shows "list_all2 (absolutized R url urlAttributes) (selectAll ''base'' doc) (selectAll ''base'' doc')"
proof -
  have e: "plainBase url doc = doc" using assms(1) by (rule plainBase_existing)
  have "list_all2 (related R url urlAttributes) (selectAll ''base'' (plainBase url doc))
          (selectAll ''base'' doc')"
    by (rule selected_related[OF assms(2,3) _ styleBlock_no_base]) simp
  then show ?thesis
    unfolding e by (rule list_all2_mono) (rule related_absolutized)
qed

text \<open>
  C3 (as amended). When the first \<open>base\<close> element of the input has a non-empty \<open>href\<close>,
  on a document for which the parser gives what the specification describes, the result
  has no more \<open>base\<close> elements than the input: none is put in. Where, moreover, the
  \<open>title\<close> elements hold text only, the \<open>base\<close> elements of the result are those of the
  input after the URL pass, one for one: an \<open>href\<close> that is empty or starts with one of the
  five prefixes is kept, any other is replaced by its resolution against the source URL,
  and nothing else of them changes.
\<close>

theorem existing_base_kept:
  assumes "hasBaseHref doc" and "parsesPlainly P url doc"
    and "rewrite P R url doc = Inr (doc', title)"
  shows "length (selectAll ''base'' doc') \<le> length (selectAll ''base'' doc)
     \<and> (list_all plainTitles doc
          \<longrightarrow> list_all2 (absolutized R url urlAttributes)
                (selectAll ''base'' doc) (selectAll ''base'' doc'))"
proof -
  from assms(2,3) have p: "plainRewrite R url doc = Inr (doc', title)"
    by (simp add: rewrite_plain)
  from plain_base_count[OF p] assms(1)
  have "length (selectAll ''base'' doc') \<le> length (selectAll ''base'' doc)"
    by (simp add: plainBase_existing)
  with plain_existing_bases[OF assms(1) p] show ?thesis by blast
qed

lemma basePage_rewrite:
  "rewrite (parseFragment exampleServices) (newURL exampleServices) ''https://example.com'' basePage = Inr
     ([Element ''html'' []
        [Element ''head'' []
           ([Element ''base'' [(''href'', ''https://existing-base.com/subdirectory/'')] [],
             Element ''title'' [] [Text ''Test Page'']] @ styleBlock),
         Element ''body'' [] [Element ''img'' [(''src'', ''https://example.com/photo.jpg'')] []]]],
      ''Test Page'')"
  by code_simp

lemma basePage_hasBaseHref: "hasBaseHref basePage"
  by code_simp

lemma basePage_plainTitles: "list_all plainTitles basePage"
  by code_simp

lemma basePage_parsesPlainly:
  "parsesPlainly (parseFragment exampleServices) ''https://example.com'' basePage"
  by code_simp

theorem existing_base_kept_witness:
  "hasBaseHref basePage \<and> list_all plainTitles basePage
   \<and> parsesPlainly (parseFragment exampleServices) ''https://example.com'' basePage
   \<and> rewrite (parseFragment exampleServices) (newURL exampleServices) ''https://example.com'' basePage = Inr
     ([Element ''html'' []
        [Element ''head'' []
           ([Element ''base'' [(''href'', ''https://existing-base.com/subdirectory/'')] [],
             Element ''title'' [] [Text ''Test Page'']] @ styleBlock),
         Element ''body'' [] [Element ''img'' [(''src'', ''https://example.com/photo.jpg'')] []]]],
      ''Test Page'')
   \<and> length (selectAll ''base''
         [Element ''html'' []
            [Element ''head'' []
               ([Element ''base'' [(''href'', ''https://existing-base.com/subdirectory/'')] [],
                 Element ''title'' [] [Text ''Test Page'']] @ styleBlock),
             Element ''body'' []
               [Element ''img'' [(''src'', ''https://example.com/photo.jpg'')] []]]])
       \<le> length (selectAll ''base'' basePage)
   \<and> list_all2 (absolutized (newURL exampleServices) ''https://example.com'' urlAttributes)
       (selectAll ''base'' basePage)
       (selectAll ''base''
         [Element ''html'' []
            [Element ''head'' []
               ([Element ''base'' [(''href'', ''https://existing-base.com/subdirectory/'')] [],
                 Element ''title'' [] [Text ''Test Page'']] @ styleBlock),
             Element ''body'' []
               [Element ''img'' [(''src'', ''https://example.com/photo.jpg'')] []]]])"
  using existing_base_kept[OF basePage_hasBaseHref basePage_parsesPlainly basePage_rewrite]
    basePage_hasBaseHref basePage_rewrite basePage_plainTitles basePage_parsesPlainly
  by blast

text \<open>
  The claim as it stands fails. The \<open>href\<close> of the \<open>base\<close> element is not the base of
  the resolution: \<open>photo.jpg\<close> is resolved against the source URL. A \<open>base\<close> element
  with a relative \<open>href\<close> is modified by the URL pass. Line 51 reads the \<open>href\<close> of
  the first \<open>base\<close> element only: when that one has none, a \<open>base\<close> element is put in
  although a later one has an \<open>href\<close>. A \<open>base\<close> element below a \<open>title\<close> element goes
  with the children of that \<open>title\<close>. And a replaced text that shows the markup of a
  \<open>base\<close> element is parsed into one: the last page comes back with two \<open>base\<close> elements.
\<close>

lemma relativeBasePage_rewrite:
  "rewrite (parseFragment exampleServices) (newURL exampleServices) ''https://example.com'' relativeBasePage = Inr
     ([Element ''html'' []
        [Element ''head'' []
           (Element ''base'' [(''href'', ''https://example.com/assets/'')] [] # styleBlock),
         Element ''body'' [] [Element ''img'' [(''src'', ''https://example.com/photo.jpg'')] []]]],
      [])"
  by code_simp

lemma escapedBasePage_rewrite:
  "rewrite (parseFragment exampleServices) (newURL exampleServices) ''https://example.com'' escapedBasePage = Inr
     ([Element ''html'' []
        [Element ''head'' []
           (Element ''base'' [(''href'', ''https://b.example/'')] [] # styleBlock),
         Element ''body'' []
           [Element ''p'' [] [Text ''Fale '', Element ''base'' [(''href'', ''x'')] []]]]],
      [])"
  by code_simp

theorem base_href_not_used:
  "hasBaseHref basePage
   \<and> baseUrl ''https://example.com'' basePage = ''https://existing-base.com/subdirectory/''
   \<and> newURL exampleServices ''photo.jpg'' ''https://existing-base.com/subdirectory/''
       = Inr ''https://existing-base.com/subdirectory/photo.jpg''
   \<and> rewrite (parseFragment exampleServices) (newURL exampleServices) ''https://example.com'' basePage = Inr
     ([Element ''html'' []
        [Element ''head'' []
           ([Element ''base'' [(''href'', ''https://existing-base.com/subdirectory/'')] [],
             Element ''title'' [] [Text ''Test Page'']] @ styleBlock),
         Element ''body'' [] [Element ''img'' [(''src'', ''https://example.com/photo.jpg'')] []]]],
      ''Test Page'')
   \<and> hasBaseHref relativeBasePage
   \<and> selectAll ''base'' relativeBasePage = [Element ''base'' [(''href'', ''assets/'')] []]
   \<and> rewrite (parseFragment exampleServices) (newURL exampleServices) ''https://example.com'' relativeBasePage = Inr
     ([Element ''html'' []
        [Element ''head'' []
           (Element ''base'' [(''href'', ''https://example.com/assets/'')] [] # styleBlock),
         Element ''body'' [] [Element ''img'' [(''src'', ''https://example.com/photo.jpg'')] []]]],
      [])
   \<and> selectAll ''base'' targetBasePage
       = [Element ''base'' [(''target'', ''_blank'')] [],
          Element ''base'' [(''href'', ''https://existing-base.com/subdirectory/'')] []]
   \<and> rewrite (parseFragment exampleServices) (newURL exampleServices) ''https://example.com'' targetBasePage = Inr
     ([Element ''html'' []
        [Element ''head'' []
           ([Element ''base'' [(''href'', ''https://example.com'')] [],
             Element ''base'' [(''target'', ''_blank'')] [],
             Element ''base'' [(''href'', ''https://existing-base.com/subdirectory/'')] []]
            @ styleBlock),
         Element ''body'' [] []]],
      [])
   \<and> hasBaseHref titledBasePage
   \<and> rewrite (parseFragment exampleServices) (newURL exampleServices) ''https://example.com'' titledBasePage = Inr
     ([Element ''html'' []
        [Element ''head'' [] styleBlock,
         Element ''body'' [] [Element ''svg'' [] [Element ''title'' [] [Text []]]]]],
      [])
   \<and> hasBaseHref escapedBasePage
   \<and> selectAll ''base'' escapedBasePage = [Element ''base'' [(''href'', ''https://b.example/'')] []]
   \<and> rewrite (parseFragment exampleServices) (newURL exampleServices) ''https://example.com'' escapedBasePage = Inr
     ([Element ''html'' []
        [Element ''head'' []
           (Element ''base'' [(''href'', ''https://b.example/'')] [] # styleBlock),
         Element ''body'' []
           [Element ''p'' [] [Text ''Fale '', Element ''base'' [(''href'', ''x'')] []]]]],
      [])
   \<and> selectAll ''base''
        [Element ''html'' []
          [Element ''head'' []
             (Element ''base'' [(''href'', ''https://b.example/'')] [] # styleBlock),
           Element ''body'' []
             [Element ''p'' [] [Text ''Fale '', Element ''base'' [(''href'', ''x'')] []]]]]
       = [Element ''base'' [(''href'', ''https://b.example/'')] [],
          Element ''base'' [(''href'', ''x'')] []]"
proof -
  have "baseUrl ''https://example.com'' basePage = ''https://existing-base.com/subdirectory/''"
    by code_simp
  moreover have "newURL exampleServices ''photo.jpg'' ''https://existing-base.com/subdirectory/''
       = Inr ''https://existing-base.com/subdirectory/photo.jpg''"
    by code_simp
  moreover have "hasBaseHref relativeBasePage" by code_simp
  moreover have "selectAll ''base'' relativeBasePage = [Element ''base'' [(''href'', ''assets/'')] []]"
    by code_simp
  moreover have "selectAll ''base'' targetBasePage
       = [Element ''base'' [(''target'', ''_blank'')] [],
          Element ''base'' [(''href'', ''https://existing-base.com/subdirectory/'')] []]"
    by code_simp
  moreover have "hasBaseHref escapedBasePage" by code_simp
  moreover have "selectAll ''base'' escapedBasePage
      = [Element ''base'' [(''href'', ''https://b.example/'')] []]"
    by code_simp
  moreover have "selectAll ''base''
        [Element ''html'' []
          [Element ''head'' []
             (Element ''base'' [(''href'', ''https://b.example/'')] [] # styleBlock),
           Element ''body'' []
             [Element ''p'' [] [Text ''Fale '', Element ''base'' [(''href'', ''x'')] []]]]]
       = [Element ''base'' [(''href'', ''https://b.example/'')] [],
          Element ''base'' [(''href'', ''x'')] []]"
    by code_simp
  ultimately show ?thesis
    using basePage_hasBaseHref basePage_rewrite relativeBasePage_rewrite targetBasePage_rewrite
      titledBasePage_hasBaseHref titledBasePage_rewrite escapedBasePage_rewrite
    by simp
qed
















end
